theory Spec2Isabelle
  imports Main
begin

section \<open>Text and paths\<close>

text \<open>
  The deployer (\<^verbatim>\<open>deploy/deploy.py\<close>) builds remote paths as strings and walks
  them with \<^verbatim>\<open>os.path.dirname\<close> and \<^verbatim>\<open>os.path.basename\<close>.  The remote hosts
  are POSIX machines and the paths use \<^verbatim>\<open>/\<close>, so the two functions are embedded in their
  \<^verbatim>\<open>posixpath\<close> form:
  \<^verbatim>\<open>
  def dirname(p):
      i = p.rfind('/') + 1
      head = p[:i]
      if head and head != '/'*len(head):
          head = head.rstrip('/')
      return head
  \<close>
  Strings are lists of ASCII characters.
\<close>

definition slash :: char where
  "slash = CHR ''/''"

definition rstrip_slash :: "string \<Rightarrow> string" where
  "rstrip_slash s = rev (dropWhile (\<lambda>c. c = slash) (rev s))"

definition head_of :: "string \<Rightarrow> string" where
  "head_of p = rev (dropWhile (\<lambda>c. c \<noteq> slash) (rev p))"

definition dirname :: "string \<Rightarrow> string" where
  "dirname p =
     (let head = head_of p
      in if head \<noteq> [] \<and> head \<noteq> replicate (length head) slash
         then rstrip_slash head else head)"

definition basename :: "string \<Rightarrow> string" where
  "basename p = rev (takeWhile (\<lambda>c. c \<noteq> slash) (rev p))"

text \<open>
  A path made of slashes only names the root directory; it is the only non-empty fixed
  point of \<open>dirname\<close>.
\<close>

definition is_root :: "string \<Rightarrow> bool" where
  "is_root p = (p \<noteq> [] \<and> p = replicate (length p) slash)"

text \<open>The chain \<open>p, dirname p, dirname (dirname p), \<dots>\<close> up to the root or the empty path.\<close>

lemma dropWhile_full: "length (dropWhile P xs) = length xs \<Longrightarrow> dropWhile P xs = xs"
proof (cases xs)
  case Nil
  then show ?thesis by simp
next
  case (Cons a ys)
  assume l: "length (dropWhile P xs) = length xs"
  show ?thesis
  proof (cases "P a")
    case True
    have "length (dropWhile P ys) \<le> length ys" by (rule length_dropWhile_le)
    with l Cons True show ?thesis by simp
  next
    case False
    with Cons show ?thesis by simp
  qed
qed

lemma dropWhile_id_hd: "dropWhile P xs = xs \<Longrightarrow> xs \<noteq> [] \<Longrightarrow> \<not> P (hd xs)"
proof (cases xs)
  case Nil
  assume "xs \<noteq> []"
  with Nil show ?thesis by simp
next
  case (Cons a ys)
  assume d: "dropWhile P xs = xs"
  show ?thesis
  proof
    assume "P (hd xs)"
    with Cons d have "dropWhile P ys = a # ys" by simp
    then have "length (dropWhile P ys) = Suc (length ys)" by simp
    moreover have "length (dropWhile P ys) \<le> length ys" by (rule length_dropWhile_le)
    ultimately show False by simp
  qed
qed

lemma length_rstrip_slash: "length (rstrip_slash s) \<le> length s"
  unfolding rstrip_slash_def using length_dropWhile_le [of "\<lambda>c. c = slash" "rev s"] by simp

lemma length_head_of: "length (head_of p) \<le> length p"
  unfolding head_of_def using length_dropWhile_le [of "\<lambda>c. c \<noteq> slash" "rev p"] by simp

lemma length_dirname: "length (dirname p) \<le> length p"
  using length_rstrip_slash [of "head_of p"] length_head_of [of p]
  by (simp add: dirname_def Let_def)

lemma head_of_full: "length (head_of p) = length p \<Longrightarrow> head_of p = p"
  unfolding head_of_def using dropWhile_full [of "\<lambda>c. c \<noteq> slash" "rev p"] by simp

lemma rstrip_slash_full: "length (rstrip_slash s) = length s \<Longrightarrow> rstrip_slash s = s"
  unfolding rstrip_slash_def using dropWhile_full [of "\<lambda>c. c = slash" "rev s"] by simp

lemma head_of_last: "head_of p = p \<Longrightarrow> p \<noteq> [] \<Longrightarrow> last p = slash"
proof -
  assume a: "head_of p = p" and b: "p \<noteq> []"
  from a have "rev (head_of p) = rev p" by simp
  then have "dropWhile (\<lambda>c. c \<noteq> slash) (rev p) = rev p"
    by (simp add: head_of_def)
  then have "\<not> (hd (rev p) \<noteq> slash)"
    using b by (intro dropWhile_id_hd) simp_all
  then show ?thesis using b by (simp add: hd_rev)
qed

lemma rstrip_slash_last: "rstrip_slash s = s \<Longrightarrow> s \<noteq> [] \<Longrightarrow> last s \<noteq> slash"
proof -
  assume a: "rstrip_slash s = s" and b: "s \<noteq> []"
  from a have "rev (rstrip_slash s) = rev s" by simp
  then have "dropWhile (\<lambda>c. c = slash) (rev s) = rev s"
    by (simp add: rstrip_slash_def)
  then have "\<not> (hd (rev s) = slash)"
    using b by (intro dropWhile_id_hd) simp_all
  then show ?thesis using b by (simp add: hd_rev)
qed

lemma dirname_fixed: "dirname p = p \<Longrightarrow> p = [] \<or> is_root p"
proof (cases "head_of p \<noteq> [] \<and> head_of p \<noteq> replicate (length (head_of p)) slash")
  case True
  assume fx: "dirname p = p"
  from True fx have eq: "rstrip_slash (head_of p) = p"
    by (simp add: dirname_def Let_def)
  have "length p \<le> length (head_of p)"
    using length_rstrip_slash [of "head_of p"] eq by simp
  then have hp: "head_of p = p"
    using length_head_of [of p] head_of_full by simp
  from True hp have ne: "p \<noteq> []" by simp
  from hp ne have "last p = slash" by (rule head_of_last)
  moreover from eq hp ne have "last p \<noteq> slash"
    by (simp add: rstrip_slash_last)
  ultimately show ?thesis by simp
next
  case False
  assume fx: "dirname p = p"
  from False have "dirname p = head_of p"
    by (auto simp: dirname_def Let_def)
  with fx have "head_of p = p" by simp
  with False show ?thesis by (auto simp: is_root_def)
qed

lemma dirname_shorter: "p \<noteq> [] \<Longrightarrow> \<not> is_root p \<Longrightarrow> length (dirname p) < length p"
proof -
  assume a: "p \<noteq> []" and b: "\<not> is_root p"
  have "dirname p \<noteq> p" using dirname_fixed [of p] a b by auto
  moreover have "length (dirname p) \<le> length p" by (rule length_dirname)
  moreover have "length (dirname p) = length p \<Longrightarrow> dirname p = p"
  proof (cases "head_of p \<noteq> [] \<and> head_of p \<noteq> replicate (length (head_of p)) slash")
    case True
    assume l: "length (dirname p) = length p"
    from True have d: "dirname p = rstrip_slash (head_of p)"
      by (simp add: dirname_def Let_def)
    have "length (head_of p) = length p"
      using l d length_rstrip_slash [of "head_of p"] length_head_of [of p] by simp
    then have hp: "head_of p = p" by (rule head_of_full)
    from l d hp have "rstrip_slash p = p" by (simp add: rstrip_slash_full)
    with d hp show "dirname p = p" by simp
  next
    case False
    assume l: "length (dirname p) = length p"
    from False have d: "dirname p = head_of p"
      by (auto simp: dirname_def Let_def)
    with l have "head_of p = p" by (simp add: head_of_full)
    with d show "dirname p = p" by simp
  qed
  ultimately show ?thesis by linarith
qed

function ancestors :: "string \<Rightarrow> string list" where
  "ancestors p =
     (if p = [] then []
      else if is_root p then [p]
      else p # ancestors (dirname p))"
  by pat_completeness auto
termination
  by (relation "measure length") (auto simp: dirname_shorter)

declare ancestors.simps [simp del]

subsection \<open>Formatting\<close>

text \<open>
  \<open>str_int\<close> is Python's \<^verbatim>\<open>str\<close> on an integer, as the f-strings
  \<^verbatim>\<open>f"dod-{port}"\<close> and \<^verbatim>\<open>f"{port - 10}"\<close> use it.
\<close>

definition digit :: "nat \<Rightarrow> char" where
  "digit d = ''0123456789'' ! d"

fun str_nat :: "nat \<Rightarrow> string" where
  "str_nat n = (if n < 10 then [digit n] else str_nat (n div 10) @ [digit (n mod 10)])"

declare str_nat.simps [simp del]

definition str_int :: "int \<Rightarrow> string" where
  "str_int i = (if i < 0 then CHR ''-'' # str_nat (nat (- i)) else str_nat (nat i))"

text \<open>Zero-padded fields, as \<^verbatim>\<open>strftime\<close> prints them.\<close>

definition pad :: "nat \<Rightarrow> nat \<Rightarrow> string" where
  "pad w n = replicate (w - length (str_nat n)) CHR ''0'' @ str_nat n"

record datetime =
  year :: nat
  month :: nat
  day :: nat
  hour :: nat
  minute :: nat
  second :: nat

text \<open>\<^verbatim>\<open>strftime("%Y%m%d_%H%M%S")\<close>\<close>

definition strftime_stamp :: "datetime \<Rightarrow> string" where
  "strftime_stamp t =
     pad 4 (year t) @ pad 2 (month t) @ pad 2 (day t) @ ''_'' @
     pad 2 (hour t) @ pad 2 (minute t) @ pad 2 (second t)"

text \<open>
  \<^verbatim>\<open>str.upper\<close>, \<^verbatim>\<open>str.title\<close> and \<^verbatim>\<open>str.strip\<close> on ASCII text.
\<close>

definition lowers :: string where
  "lowers = ''abcdefghijklmnopqrstuvwxyz''"

definition uppers :: string where
  "uppers = ''ABCDEFGHIJKLMNOPQRSTUVWXYZ''"

definition upper_char :: "char \<Rightarrow> char" where
  "upper_char c = (case map_of (zip lowers uppers) c of Some u \<Rightarrow> u | None \<Rightarrow> c)"

definition lower_char :: "char \<Rightarrow> char" where
  "lower_char c = (case map_of (zip uppers lowers) c of Some l \<Rightarrow> l | None \<Rightarrow> c)"

definition is_cased :: "char \<Rightarrow> bool" where
  "is_cased c = (c \<in> set lowers \<or> c \<in> set uppers)"

definition upper :: "string \<Rightarrow> string" where
  "upper s = map upper_char s"

fun title_from :: "bool \<Rightarrow> string \<Rightarrow> string" where
  "title_from prev [] = []"
| "title_from prev (c # cs) =
     (if is_cased c
      then (if prev then lower_char c else upper_char c) # title_from True cs
      else c # title_from False cs)"

definition title :: "string \<Rightarrow> string" where
  "title s = title_from False s"

definition is_space :: "char \<Rightarrow> bool" where
  "is_space c = (c \<in> set [CHR '' '', CHR 0x09, CHR 0x0A, CHR 0x0B, CHR 0x0C, CHR 0x0D])"

definition strip :: "string \<Rightarrow> string" where
  "strip s = rev (dropWhile is_space (rev (dropWhile is_space s)))"

definition newline :: char where
  "newline = CHR 0x0A"

definition dquote :: char where
  "dquote = CHR 0x22"

text \<open>\<^verbatim>\<open>s.split("\n")\<close> and \<^verbatim>\<open>"\n".join(ls)\<close>\<close>

fun split_lines :: "string \<Rightarrow> string list" where
  "split_lines [] = [[]]"
| "split_lines (c # cs) =
     (if c = newline then [] # split_lines cs
      else (case split_lines cs of [] \<Rightarrow> [[c]] | l # ls \<Rightarrow> (c # l) # ls))"

fun join :: "string \<Rightarrow> string list \<Rightarrow> string" where
  "join s [] = []"
| "join s [x] = x"
| "join s (x # y # ys) = x @ s @ join s (y # ys)"

definition endswith :: "string \<Rightarrow> string \<Rightarrow> bool" where
  "endswith s suffix = (length suffix \<le> length s \<and> drop (length s - length suffix) s = suffix)"

definition startswith :: "string \<Rightarrow> string \<Rightarrow> bool" where
  "startswith s prefix = (take (length prefix) s = prefix)"

section \<open>Configuration\<close>

text \<open>
  The configuration document is the nested mapping that \<^verbatim>\<open>yaml.safe_load\<close> returns.
  A field the code reads with \<^verbatim>\<open>.get\<close> is optional (\<open>None\<close> when the key is
  absent); a field it reads with \<^verbatim>\<open>[...]\<close> is required.  Python's truth test on an
  optional string (\<^verbatim>\<open>if not cluster.get("host")\<close>) is \<open>truthy\<close>: a missing key and
  an empty string are both false.
\<close>

record cluster =
  host :: "string option"
  user :: string
  password :: "string option"
  ports :: "int list"
  hostname :: "string option"
  server_name_prefix :: "string option"

record path_config =
  source :: string
  dest :: string
  chmod :: "string option"

record config =
  clusters :: "string \<rightharpoonup> cluster"
  paths :: "string \<rightharpoonup> path_config list"
  profiles :: "string \<rightharpoonup> (string \<times> string) list"
  data_server_ip :: "string option"
  discord_relay_url :: "string option"
  discord_relay_secret :: "string option"
  discord_channel_id :: "string option"

definition truthy :: "string option \<Rightarrow> bool" where
  "truthy v = (case v of None \<Rightarrow> False | Some s \<Rightarrow> s \<noteq> [])"

subsection \<open>\<^verbatim>\<open>KTPDeployer._load_config\<close>\<close>

text \<open>
  \<open>environ\<close> is \<^verbatim>\<open>os.environ\<close>.  Every override has the shape
  \<^verbatim>\<open>
  env_host = os.environ.get(f"{env_prefix}HOST")
  if env_host:
      cluster_config["host"] = env_host
  \<close>
  so \<open>getenv_truthy\<close> is the value of a variable that passes the truth test.
\<close>

definition getenv_truthy :: "(string \<rightharpoonup> string) \<Rightarrow> string \<Rightarrow> string option" where
  "getenv_truthy environ name =
     (case environ name of None \<Rightarrow> None | Some v \<Rightarrow> if v \<noteq> [] then Some v else None)"

definition env_prefix :: "string \<Rightarrow> string" where
  "env_prefix cluster_name = ''KTP_'' @ upper cluster_name @ ''_''"

definition load_cluster :: "(string \<rightharpoonup> string) \<Rightarrow> string \<Rightarrow> cluster \<Rightarrow> cluster" where
  "load_cluster environ cluster_name c =
     c\<lparr>host := (case getenv_truthy environ (env_prefix cluster_name @ ''HOST'') of
                  Some v \<Rightarrow> Some v | None \<Rightarrow> host c),
       user := (case getenv_truthy environ (env_prefix cluster_name @ ''USER'') of
                  Some v \<Rightarrow> v | None \<Rightarrow> user c),
       password := (case getenv_truthy environ (env_prefix cluster_name @ ''PASSWORD'') of
                  Some v \<Rightarrow> Some v | None \<Rightarrow> password c)\<rparr>"

definition load_config :: "(string \<rightharpoonup> string) \<Rightarrow> config \<Rightarrow> config" where
  "load_config environ doc =
     doc\<lparr>clusters := (\<lambda>name. map_option (load_cluster environ name) (clusters doc name)),
         data_server_ip := (case getenv_truthy environ ''KTP_DATA_SERVER_IP'' of
                  Some v \<Rightarrow> Some v | None \<Rightarrow> data_server_ip doc),
         discord_relay_url := (case getenv_truthy environ ''KTP_DISCORD_RELAY_URL'' of
                  Some v \<Rightarrow> Some v | None \<Rightarrow> discord_relay_url doc),
         discord_relay_secret := (case getenv_truthy environ ''KTP_DISCORD_RELAY_SECRET'' of
                  Some v \<Rightarrow> Some v | None \<Rightarrow> discord_relay_secret doc),
         discord_channel_id := (case getenv_truthy environ ''KTP_DISCORD_CHANNEL_ID'' of
                  Some v \<Rightarrow> Some v | None \<Rightarrow> discord_channel_id doc)\<rparr>"

text \<open>The deployer object: \<^verbatim>\<open>self.config\<close>, \<^verbatim>\<open>self.artifacts_dir\<close>,
  \<^verbatim>\<open>self.version\<close> and \<^verbatim>\<open>self.template_env\<close> (the names that
  \<^verbatim>\<open>list_templates()\<close> returns, or \<open>None\<close> without a templates directory).\<close>

record deployer =
  config :: config
  artifacts_dir :: string
  version :: string
  template_env :: "string list option"

section \<open>The world outside the deployer\<close>

text \<open>
  Everything the deployer does to the outside goes through Paramiko (SSH and SFTP) and
  \<^verbatim>\<open>urllib\<close>.  Each call is an \<open>event\<close>; the \<open>world\<close> keeps the events in order
  (\<open>trace\<close>), the filesystem of every host, and the number of clock readings taken.
  Console output is not part of the model.

  Exceptions are values.  \<open>is_OSError\<close> follows Python's class hierarchy, which
  \<^verbatim>\<open>except OSError\<close> and \<^verbatim>\<open>except FileNotFoundError\<close> depend on.
\<close>

datatype exn =
    KeyError string
  | FileNotFoundError
  | PermissionError
  | IOError
  | SSHException
  | ValueError
  | TemplateError
  | URLError

definition is_OSError :: "exn \<Rightarrow> bool" where
  "is_OSError e = (e = FileNotFoundError \<or> e = PermissionError \<or> e = IOError \<or> e = URLError)"

text \<open>
  The deployer sends five kinds of shell command with \<^verbatim>\<open>ssh.exec_command\<close>.  What goes
  over the wire is a line of text, built by an f-string that pastes the paths and names in
  as they are, without quoting; \<open>command_line\<close> is that text:
  \<^descr> \<open>TestF p\<close> gives \<^verbatim>\<open>test -f {p} && echo exists\<close>;
  \<^descr> \<open>MkdirP p\<close> gives \<^verbatim>\<open>mkdir -p {p}\<close>;
  \<^descr> \<open>Cp a b\<close> gives \<^verbatim>\<open>cp {a} {b}\<close>;
  \<^descr> \<open>SetServerName f n\<close> gives the \<^verbatim>\<open>grep -q ... && sed -i ... || echo ... >> {f}\<close> line
    that replaces or appends the \<^verbatim>\<open>servername=\<close> setting;
  \<^descr> \<open>CatTo f text\<close> gives the here-document \<^verbatim>\<open>cat > {f} << 'EOFCFG'\<close> with \<open>text\<close> and
    a line break before the closing \<^verbatim>\<open>EOFCFG\<close>.
\<close>

datatype command =
    TestF string
  | MkdirP string
  | Cp string string
  | SetServerName string string
  | CatTo string string

definition squote :: char where
  "squote = CHR 0x27"

definition command_line :: "command \<Rightarrow> string" where
  "command_line c =
     (case c of
        TestF p \<Rightarrow> ''test -f '' @ p @ '' && echo exists''
      | MkdirP p \<Rightarrow> ''mkdir -p '' @ p
      | Cp a b \<Rightarrow> ''cp '' @ a @ '' '' @ b
      | SetServerName f n \<Rightarrow>
          ''grep -q '' @ [squote] @ ''^servername='' @ [squote] @ '' '' @ f @ '' && '' @
          ''sed -i '' @ [squote] @ ''s/^servername=.*/servername='' @ [dquote] @ n @ [dquote] @
             ''/'' @ [squote] @ '' '' @ f @ '' || '' @
          ''echo '' @ [squote] @ ''servername='' @ [dquote] @ n @ [dquote] @ [squote] @
             '' >> '' @ f
      | CatTo f text \<Rightarrow>
          ''cat > '' @ f @ '' << '' @ [squote] @ ''EOFCFG'' @ [squote] @ [newline] @
          text @ [newline] @ ''EOFCFG'')"

datatype rop =
    OpenSftp
  | Stat string
  | Mkdir string
  | Put string string
  | Chmod string int
  | SftpWrite string string
  | Exec string
  | CloseSftp
  | CloseSsh

record payload =
  channel_id :: string
  secret :: string
  embed_title :: string
  embed_description :: string
  embed_color :: nat
  embed_fields :: "(string \<times> string \<times> bool) list"
  embed_timestamp :: datetime

datatype event =
    Connect string string "string option"
  | Remote string rop
  | HttpPost string payload

text \<open>
  What the deployer cannot decide is given by the environment: which calls the transport
  fails (\<open>Refused\<close>: the server answers with an error, an \<^verbatim>\<open>IOError\<close> in Paramiko;
  \<open>Dropped\<close>: the connection fails, an \<^verbatim>\<open>SSHException\<close>), the files on the local disk,
  the clock, Python's \<^verbatim>\<open>int(s, 8)\<close>, the Jinja2 renderer (\<open>None\<close> when rendering
  raises) and the status the relay answers with.

  Two more things are the remote host's.  \<open>shell\<close> is what its shell does with a command
  line: the output and the filesystem afterwards.  Nothing is assumed about it, so a line
  in which a pasted path contains a blank or a shell metacharacter means whatever the
  host's shell makes of it.  \<open>ready\<close> is the host's scheduling: \<^verbatim>\<open>exec_command\<close> returns as
  soon as the command has been started, and the deployer waits for a command only where
  it reads the command's output to the end.  A command that was started and not waited
  for is \<open>pending\<close>; at the moments described below, \<open>ready\<close> names the positions in the
  pending list of the commands that have run by then, in the order in which they ran.
\<close>

datatype failure = Refused | Dropped

definition failure_exn :: "failure \<Rightarrow> exn" where
  "failure_exn f = (case f of Refused \<Rightarrow> PermissionError | Dropped \<Rightarrow> SSHException)"

record fs =
  dirs :: "string set"
  files :: "string \<rightharpoonup> string"

record env =
  fault :: "event \<Rightarrow> failure option"
  local_files :: "string \<rightharpoonup> string"
  now :: "nat \<Rightarrow> datetime"
  int_base8 :: "string \<Rightarrow> int option"
  render :: "string \<Rightarrow> (string \<times> string) list \<Rightarrow> cluster \<Rightarrow> string \<Rightarrow> string option"
  http_status :: "payload \<Rightarrow> nat"
  shell :: "string \<Rightarrow> fs \<Rightarrow> string \<times> fs"
  ready :: "event \<Rightarrow> (string \<times> string) list \<Rightarrow> nat list"

record world =
  remote :: "string \<Rightarrow> fs"
  trace :: "event list"
  clock_reads :: nat
  pending :: "(string \<times> string) list"

subsection \<open>The remote filesystem\<close>

text \<open>
  The root directory always exists.  A relative name with no directory part resolves
  against the session's working directory, which exists too (\<open>parent_ok\<close>).
\<close>

definition exists_path :: "fs \<Rightarrow> string \<Rightarrow> bool" where
  "exists_path f p = (is_root p \<or> p \<in> dirs f \<or> files f p \<noteq> None)"

definition is_dir :: "fs \<Rightarrow> string \<Rightarrow> bool" where
  "is_dir f p = (is_root p \<or> p \<in> dirs f)"

definition parent_ok :: "fs \<Rightarrow> string \<Rightarrow> bool" where
  "parent_ok f p = (dirname p = [] \<or> is_dir f (dirname p))"

definition write_file :: "fs \<Rightarrow> string \<Rightarrow> string \<Rightarrow> fs" where
  "write_file f p text = (if parent_ok f p \<and> \<not> is_dir f p then f\<lparr>files := (files f)(p \<mapsto> text)\<rparr> else f)"

definition servername_line :: "string \<Rightarrow> string" where
  "servername_line n = ''servername='' @ [dquote] @ n @ [dquote]"

definition set_servername :: "string \<Rightarrow> string \<Rightarrow> string" where
  "set_servername n text =
     (if list_ex (\<lambda>l. startswith l ''servername='') (split_lines text)
      then join [newline]
             (map (\<lambda>l. if startswith l ''servername='' then servername_line n else l)
                (split_lines text))
      else text @ servername_line n @ [newline])"

text \<open>
  \<open>run_command\<close> is what a command does when it runs to its end on a host whose shell
  reads every pasted path and name as one plain word.  It is not part of the deployer;
  the example hosts below answer with it, and only to the lines they know.
\<close>

definition run_command :: "command \<Rightarrow> fs \<Rightarrow> string \<times> fs" where
  "run_command c f =
     (case c of
        TestF p \<Rightarrow> (if files f p \<noteq> None then ''exists'' @ [newline] else [], f)
      | MkdirP p \<Rightarrow>
          ([], if list_all (\<lambda>q. files f q = None) (ancestors p)
               then f\<lparr>dirs := dirs f \<union> set (ancestors p)\<rparr> else f)
      | Cp a b \<Rightarrow> ([], case files f a of None \<Rightarrow> f | Some text \<Rightarrow> write_file f b text)
      | SetServerName p n \<Rightarrow>
          ([], write_file f p (set_servername n (case files f p of None \<Rightarrow> [] | Some text \<Rightarrow> text)))
      | CatTo p text \<Rightarrow> ([], write_file f p (text @ [newline])))"

definition plain_shell :: "command list \<Rightarrow> string \<Rightarrow> fs \<Rightarrow> string \<times> fs" where
  "plain_shell known line f =
     (case find (\<lambda>c. command_line c = line) known of
        None \<Rightarrow> ([], f)
      | Some c \<Rightarrow> run_command c f)"

text \<open>
  The server's answer to a request.  \<^verbatim>\<open>sftp.stat\<close> raises \<^verbatim>\<open>FileNotFoundError\<close> on a
  path that does not exist; \<^verbatim>\<open>sftp.mkdir\<close> raises \<^verbatim>\<open>IOError\<close> when the path exists or
  its parent is not a directory; \<^verbatim>\<open>sftp.put\<close> opens the local file first.  Whether the
  server accepts a transfer or a permission change is left to the fault oracle, and
  permission bits are not part of the filesystem state.  A command line that is waited
  for is answered by the host's shell.
\<close>

definition serve :: "env \<Rightarrow> rop \<Rightarrow> fs \<Rightarrow> (exn + string) \<times> fs" where
  "serve E r f =
     (case r of
        OpenSftp \<Rightarrow> (Inr [], f)
      | Stat p \<Rightarrow> (if exists_path f p then Inr [] else Inl FileNotFoundError, f)
      | Mkdir p \<Rightarrow>
          (if exists_path f p \<or> \<not> parent_ok f p then (Inl IOError, f)
           else (Inr [], f\<lparr>dirs := insert p (dirs f)\<rparr>))
      | Put a b \<Rightarrow>
          (case local_files E a of
             None \<Rightarrow> (Inl FileNotFoundError, f)
           | Some text \<Rightarrow> (Inr [], f\<lparr>files := (files f)(b \<mapsto> text)\<rparr>))
      | Chmod p m \<Rightarrow> (Inr [], f)
      | SftpWrite p text \<Rightarrow> (Inr [], f\<lparr>files := (files f)(p \<mapsto> text)\<rparr>)
      | Exec line \<Rightarrow> (case shell E line f of (out, f') \<Rightarrow> (Inr out, f'))
      | CloseSftp \<Rightarrow> (Inr [], f)
      | CloseSsh \<Rightarrow> (Inr [], f))"

text \<open>One call on an open session to host \<open>h\<close>: the event is recorded, then the call
  either fails in transit or is served.\<close>

definition request :: "env \<Rightarrow> string \<Rightarrow> rop \<Rightarrow> world \<Rightarrow> (exn + string) \<times> world" where
  "request E h r w =
     (let w1 = w\<lparr>trace := trace w @ [Remote h r]\<rparr>
      in case fault E (Remote h r) of
           Some f \<Rightarrow> (Inl (failure_exn f), w1)
         | None \<Rightarrow>
             (case serve E r (remote w h) of
                (res, f') \<Rightarrow> (res, w1\<lparr>remote := (remote w)(h := f')\<rparr>)))"

text \<open>
  \<^verbatim>\<open>ssh.exec_command(line)\<close> whose output is not read: the event is recorded and the call
  either fails in transit or returns with the command started, that is, pending.
\<close>

definition start_command :: "env \<Rightarrow> string \<Rightarrow> string \<Rightarrow> world \<Rightarrow> (exn + unit) \<times> world" where
  "start_command E h line w =
     (let w1 = w\<lparr>trace := trace w @ [Remote h (Exec line)]\<rparr>
      in case fault E (Remote h (Exec line)) of
           Some f \<Rightarrow> (Inl (failure_exn f), w1)
         | None \<Rightarrow> (Inr (), w1\<lparr>pending := pending w @ [(h, line)]\<rparr>))"

text \<open>
  Pending commands take effect when the host runs them.  \<open>settle E ev w\<close> is the world
  at the moment of the event \<open>ev\<close>: the pending commands that \<open>ready\<close> names have run, in
  the order it gives, each through the shell of its host, and have left the pending list;
  the others are still pending.  The model looks at the pending commands at the calls
  whose effect or answer depends on the files of the host: a file transfer, an SFTP
  write, and a command that is waited for (\<open>request_after\<close>).  The directory probes
  \<^verbatim>\<open>sftp.stat\<close> and \<^verbatim>\<open>sftp.mkdir\<close> are served from the filesystem as the last such moment
  left it.
\<close>

definition run_pending :: "env \<Rightarrow> (string \<times> string) list \<Rightarrow> (string \<Rightarrow> fs) \<Rightarrow> string \<Rightarrow> fs" where
  "run_pending E cs R = fold (\<lambda>(h, line) R'. R'(h := snd (shell E line (R' h)))) cs R"

definition settle :: "env \<Rightarrow> event \<Rightarrow> world \<Rightarrow> world" where
  "settle E ev w =
     (let ps = pending w;
          picked = remdups (filter (\<lambda>i. i < length ps) (ready E ev ps))
      in w\<lparr>remote := run_pending E (map (\<lambda>i. ps ! i) picked) (remote w),
           pending := map snd (filter (\<lambda>(i, p). i \<notin> set picked) (enumerate 0 ps))\<rparr>)"

definition request_after :: "env \<Rightarrow> string \<Rightarrow> rop \<Rightarrow> world \<Rightarrow> (exn + string) \<times> world" where
  "request_after E h r w = request E h r (settle E (Remote h r) w)"

lemma stat_not_found_not_root:
  "request E h (Stat p) w = (Inl FileNotFoundError, w1) \<Longrightarrow> \<not> is_root p"
  by (auto simp: request_def serve_def Let_def exists_path_def failure_exn_def
      split: option.splits failure.splits if_splits)

section \<open>The deployer's operations\<close>

subsection \<open>\<^verbatim>\<open>_connect\<close> and \<^verbatim>\<open>_get_server_dirs\<close>\<close>

text \<open>
  \<^verbatim>\<open>cluster["host"]\<close> raises \<^verbatim>\<open>KeyError\<close> before \<^verbatim>\<open>ssh.connect\<close> is reached.  The
  password is passed when it is truthy, else key authentication is used.  The session is
  identified by the host it is connected to.
\<close>

definition connect :: "env \<Rightarrow> cluster \<Rightarrow> world \<Rightarrow> (exn + string) \<times> world" where
  "connect E c w =
     (case host c of
        None \<Rightarrow> (Inl (KeyError ''host''), w)
      | Some h \<Rightarrow>
          (let ev = Connect h (user c) (if truthy (password c) then password c else None);
               w1 = w\<lparr>trace := trace w @ [ev]\<rparr>
           in case fault E ev of
                Some f \<Rightarrow> (Inl (failure_exn f), w1)
              | None \<Rightarrow> (Inr h, w1)))"

definition get_server_dirs :: "cluster \<Rightarrow> string list" where
  "get_server_dirs c = map (\<lambda>port. ''dod-'' @ str_int port) (ports c)"

definition home_dir :: "cluster \<Rightarrow> string" where
  "home_dir c = ''/home/'' @ user c"

definition backup_dir :: "deployer \<Rightarrow> cluster \<Rightarrow> string" where
  "backup_dir D c = home_dir c @ ''/backups/'' @ version D"

subsection \<open>\<^verbatim>\<open>_mkdir_p\<close>\<close>

text \<open>
  \<^verbatim>\<open>
  dirs = []
  while remote_path:
      try:
          sftp.stat(remote_path)
          break
      except FileNotFoundError:
          dirs.append(remote_path)
          remote_path = os.path.dirname(remote_path)
  for d in reversed(dirs):
      try:
          sftp.mkdir(d)
      except OSError:
          pass
  \<close>
  The loop ends because \<open>dirname\<close> shortens every path but the root, and the root
  exists.
\<close>

function walk_up ::
  "env \<Rightarrow> string \<Rightarrow> string \<Rightarrow> string list \<Rightarrow> world \<Rightarrow> (exn + string list) \<times> world" where
  "walk_up E h remote_path ds w =
     (if remote_path = [] then (Inr ds, w)
      else (case request E h (Stat remote_path) w of
              (Inr ok, w1) \<Rightarrow> (Inr ds, w1)
            | (Inl e, w1) \<Rightarrow>
                if e = FileNotFoundError
                then walk_up E h (dirname remote_path) (ds @ [remote_path]) w1
                else (Inl e, w1)))"
  by pat_completeness auto
termination
  apply (relation "measure (\<lambda>(E, h, p, ds, w). length p)")
   apply simp
  apply simp
  apply (auto dest!: sym [of "(_, _)"] stat_not_found_not_root simp: dirname_shorter)
  done

declare walk_up.simps [simp del]

fun make_dirs :: "env \<Rightarrow> string \<Rightarrow> string list \<Rightarrow> world \<Rightarrow> (exn + unit) \<times> world" where
  "make_dirs E h [] w = (Inr (), w)"
| "make_dirs E h (d # ds) w =
     (case request E h (Mkdir d) w of
        (Inr ok, w1) \<Rightarrow> make_dirs E h ds w1
      | (Inl e, w1) \<Rightarrow> if is_OSError e then make_dirs E h ds w1 else (Inl e, w1))"

definition mkdir_p :: "env \<Rightarrow> string \<Rightarrow> string \<Rightarrow> world \<Rightarrow> (exn + unit) \<times> world" where
  "mkdir_p E h remote_path w =
     (case walk_up E h remote_path [] w of
        (Inl e, w1) \<Rightarrow> (Inl e, w1)
      | (Inr ds, w1) \<Rightarrow> make_dirs E h (rev ds) w1)"

subsection \<open>\<^verbatim>\<open>_backup_file_via_ssh\<close>\<close>

text \<open>
  \<open>backup_try\<close> is the body of the \<^verbatim>\<open>try\<close>; \<open>backup_file_via_ssh\<close> adds the handler
  \<^verbatim>\<open>except Exception: pass\<close>.  Reading the clock advances \<open>clock_reads\<close>.  The output
  of \<^verbatim>\<open>test -f\<close> is read to its end, so that command is waited for; \<^verbatim>\<open>mkdir -p\<close> and
  \<^verbatim>\<open>cp\<close> are started and their streams dropped.
\<close>

definition backup_path :: "string \<Rightarrow> string \<Rightarrow> datetime \<Rightarrow> string" where
  "backup_path bdir remote_path t =
     bdir @ ''/'' @ basename remote_path @ ''.'' @ strftime_stamp t @ ''.bak''"

definition backup_try :: "env \<Rightarrow> string \<Rightarrow> string \<Rightarrow> string \<Rightarrow> world \<Rightarrow> (exn + unit) \<times> world" where
  "backup_try E h remote_path bdir w =
     (case request_after E h (Exec (command_line (TestF remote_path))) w of
        (Inl e, w1) \<Rightarrow> (Inl e, w1)
      | (Inr out, w1) \<Rightarrow>
          if strip out \<noteq> ''exists'' then (Inr (), w1)
          else (case start_command E h (command_line (MkdirP bdir)) w1 of
                  (Inl e, w2) \<Rightarrow> (Inl e, w2)
                | (Inr u, w2) \<Rightarrow>
                    (let t = now E (clock_reads w2);
                         w3 = w2\<lparr>clock_reads := Suc (clock_reads w2)\<rparr>
                     in case start_command E h
                               (command_line (Cp remote_path (backup_path bdir remote_path t)))
                               w3 of
                          (Inl e, w4) \<Rightarrow> (Inl e, w4)
                        | (Inr u', w4) \<Rightarrow> (Inr (), w4))))"

definition backup_file_via_ssh ::
  "env \<Rightarrow> string \<Rightarrow> string \<Rightarrow> string \<Rightarrow> world \<Rightarrow> (exn + unit) \<times> world" where
  "backup_file_via_ssh E h remote_path bdir w =
     (case backup_try E h remote_path bdir w of
        (Inl e, w1) \<Rightarrow> (Inr (), w1)
      | (Inr u, w1) \<Rightarrow> (Inr (), w1))"

subsection \<open>\<^verbatim>\<open>deploy_component\<close>\<close>

text \<open>
  \<open>local_source\<close> is \<^verbatim>\<open>self.artifacts_dir / path_config["source"]\<close> (an absolute
  source replaces the artifacts directory, as \<^verbatim>\<open>pathlib\<close> joins paths), and
  \<^verbatim>\<open>source.exists()\<close> asks the local disk.  \<open>upload_try\<close> is the inner \<^verbatim>\<open>try\<close> around
  \<^verbatim>\<open>sftp.put\<close> and \<^verbatim>\<open>sftp.chmod\<close>; \<open>deploy_file\<close> is one round of the loop over
  \<^verbatim>\<open>component_paths\<close>, returning the \<^verbatim>\<open>success\<close> flag or the exception that leaves the
  loop; \<open>deploy_component_try\<close> is the outer \<^verbatim>\<open>try\<close>.
\<close>

definition local_source :: "deployer \<Rightarrow> path_config \<Rightarrow> string" where
  "local_source D pc =
     (if startswith (source pc) ''/'' then source pc else artifacts_dir D @ ''/'' @ source pc)"

definition upload_try ::
  "env \<Rightarrow> string \<Rightarrow> path_config \<Rightarrow> string \<Rightarrow> string \<Rightarrow> world \<Rightarrow> (exn + unit) \<times> world" where
  "upload_try E h pc src dst w =
     (case request_after E h (Put src dst) w of
        (Inl e, w1) \<Rightarrow> (Inl e, w1)
      | (Inr ok, w1) \<Rightarrow>
          (case chmod pc of
             None \<Rightarrow> (Inr (), w1)
           | Some m \<Rightarrow>
               (case int_base8 E m of
                  None \<Rightarrow> (Inl ValueError, w1)
                | Some mode \<Rightarrow>
                    (case request E h (Chmod dst mode) w1 of
                       (Inl e, w2) \<Rightarrow> (Inl e, w2)
                     | (Inr ok', w2) \<Rightarrow> (Inr (), w2)))))"

definition ensure_dest_dir :: "env \<Rightarrow> string \<Rightarrow> string \<Rightarrow> world \<Rightarrow> (exn + unit) \<times> world" where
  "ensure_dest_dir E h dest_dir w =
     (case request E h (Stat dest_dir) w of
        (Inr ok, w1) \<Rightarrow> (Inr (), w1)
      | (Inl e, w1) \<Rightarrow> if e = FileNotFoundError then mkdir_p E h dest_dir w1 else (Inl e, w1))"

definition dest_path :: "cluster \<Rightarrow> string \<Rightarrow> path_config \<Rightarrow> string" where
  "dest_path c server_dir pc = home_dir c @ ''/'' @ server_dir @ ''/'' @ dest pc"

definition deploy_file ::
  "env \<Rightarrow> deployer \<Rightarrow> cluster \<Rightarrow> string \<Rightarrow> string \<Rightarrow> path_config \<Rightarrow> bool \<Rightarrow> world
     \<Rightarrow> (exn + bool) \<times> world" where
  "deploy_file E D c h server_dir pc success w =
     (if local_files E (local_source D pc) = None then (Inr success, w)
      else
        (let dst = dest_path c server_dir pc
         in case ensure_dest_dir E h (dirname dst) w of
              (Inl e, w1) \<Rightarrow> (Inl e, w1)
            | (Inr u, w1) \<Rightarrow>
                (case backup_file_via_ssh E h dst (backup_dir D c) w1 of
                   (Inl e, w2) \<Rightarrow> (Inl e, w2)
                 | (Inr u', w2) \<Rightarrow>
                     (case upload_try E h pc (local_source D pc) dst w2 of
                        (Inl e, w3) \<Rightarrow> (Inr False, w3)
                      | (Inr u'', w3) \<Rightarrow> (Inr success, w3)))))"

fun deploy_files ::
  "env \<Rightarrow> deployer \<Rightarrow> cluster \<Rightarrow> string \<Rightarrow> string \<Rightarrow> path_config list \<Rightarrow> bool \<Rightarrow> world
     \<Rightarrow> (exn + bool) \<times> world" where
  "deploy_files E D c h server_dir [] success w = (Inr success, w)"
| "deploy_files E D c h server_dir (pc # pcs) success w =
     (case deploy_file E D c h server_dir pc success w of
        (Inl e, w1) \<Rightarrow> (Inl e, w1)
      | (Inr success1, w1) \<Rightarrow> deploy_files E D c h server_dir pcs success1 w1)"

fun deploy_server_dirs ::
  "env \<Rightarrow> deployer \<Rightarrow> cluster \<Rightarrow> string \<Rightarrow> string list \<Rightarrow> path_config list \<Rightarrow> bool \<Rightarrow> world
     \<Rightarrow> (exn + bool) \<times> world" where
  "deploy_server_dirs E D c h [] pcs success w = (Inr success, w)"
| "deploy_server_dirs E D c h (server_dir # rest) pcs success w =
     (case deploy_files E D c h server_dir pcs success w of
        (Inl e, w1) \<Rightarrow> (Inl e, w1)
      | (Inr success1, w1) \<Rightarrow> deploy_server_dirs E D c h rest pcs success1 w1)"

definition deploy_component_try ::
  "env \<Rightarrow> deployer \<Rightarrow> cluster \<Rightarrow> path_config list \<Rightarrow> world \<Rightarrow> (exn + bool) \<times> world" where
  "deploy_component_try E D c component_paths w =
     (case connect E c w of
        (Inl e, w1) \<Rightarrow> (Inl e, w1)
      | (Inr h, w1) \<Rightarrow>
          (case request E h OpenSftp w1 of
             (Inl e, w2) \<Rightarrow> (Inl e, w2)
           | (Inr ok, w2) \<Rightarrow>
               (case deploy_server_dirs E D c h (get_server_dirs c) component_paths True w2 of
                  (Inl e, w3) \<Rightarrow> (Inl e, w3)
                | (Inr success, w3) \<Rightarrow>
                    (case request E h CloseSftp w3 of
                       (Inl e, w4) \<Rightarrow> (Inl e, w4)
                     | (Inr ok', w4) \<Rightarrow>
                         (case request E h CloseSsh w4 of
                            (Inl e, w5) \<Rightarrow> (Inl e, w5)
                          | (Inr ok'', w5) \<Rightarrow> (Inr success, w5))))))"

definition component_paths_of :: "deployer \<Rightarrow> string \<Rightarrow> path_config list" where
  "component_paths_of D component =
     (case paths (config D) component of None \<Rightarrow> [] | Some pcs \<Rightarrow> pcs)"

definition deploy_component ::
  "env \<Rightarrow> deployer \<Rightarrow> string \<Rightarrow> cluster \<Rightarrow> string \<Rightarrow> bool \<Rightarrow> world \<Rightarrow> bool \<times> world" where
  "deploy_component E D cluster_name c component dry_run w =
     (if \<not> truthy (host c) then (False, w)
      else if component_paths_of D component = [] then (False, w)
      else if dry_run then (True, w)
      else (case deploy_component_try E D c (component_paths_of D component) w of
              (Inl e, w1) \<Rightarrow> (False, w1)
            | (Inr success, w1) \<Rightarrow> (success, w1)))"

subsection \<open>\<^verbatim>\<open>configure_server_names\<close>\<close>

text \<open>
  \<open>configure_instances\<close> is the loop \<^verbatim>\<open>for i, port in enumerate(cluster["ports"], 1)\<close>,
  with the index \<open>i\<close> carried along.  The dry-run branch only prints.  Of the three
  commands of a round only \<^verbatim>\<open>test -f\<close> is waited for.
\<close>

definition exec_name :: "nat \<Rightarrow> string" where
  "exec_name i = (if i = 1 then ''dodserver'' else ''dodserver'' @ str_nat i)"

definition config_content :: "nat \<Rightarrow> int \<Rightarrow> string \<Rightarrow> string \<Rightarrow> string" where
  "config_content i port server_name hname =
     ''# LinuxGSM Instance Configuration'' @ [newline] @
     ''# Instance '' @ str_nat i @ '' - Port '' @ str_int port @ [newline] @
     [newline] @
     ''port='' @ [dquote] @ str_int port @ [dquote] @ [newline] @
     ''clientport='' @ [dquote] @ str_int (port - 10) @ [dquote] @ [newline] @
     ''servername='' @ [dquote] @ server_name @ [dquote] @ [newline] @
     [newline] @
     ''# Cluster: '' @ hname @ [newline]"

fun configure_instances ::
  "env \<Rightarrow> string \<Rightarrow> cluster \<Rightarrow> string \<Rightarrow> string \<Rightarrow> nat \<Rightarrow> int list \<Rightarrow> world
     \<Rightarrow> (exn + unit) \<times> world" where
  "configure_instances E h c hname prefix i [] w = (Inr (), w)"
| "configure_instances E h c hname prefix i (port # rest) w =
     (let server_name = prefix @ '' #'' @ str_nat i;
          config_dir = home_dir c @ ''/dod-'' @ str_int port @ ''/lgsm/config-lgsm/dodserver'';
          config_file = config_dir @ ''/'' @ exec_name i @ ''.cfg''
      in case start_command E h (command_line (MkdirP config_dir)) w of
           (Inl e, w1) \<Rightarrow> (Inl e, w1)
         | (Inr u, w1) \<Rightarrow>
             (case request_after E h (Exec (command_line (TestF config_file))) w1 of
                (Inl e, w2) \<Rightarrow> (Inl e, w2)
              | (Inr out, w2) \<Rightarrow>
                  (case start_command E h
                          (command_line
                             (if strip out = ''exists''
                              then SetServerName config_file server_name
                              else CatTo config_file (config_content i port server_name hname)))
                          w2 of
                     (Inl e, w3) \<Rightarrow> (Inl e, w3)
                   | (Inr u', w3) \<Rightarrow>
                       configure_instances E h c hname prefix (Suc i) rest w3)))"

definition configure_server_names_try ::
  "env \<Rightarrow> cluster \<Rightarrow> string \<Rightarrow> string \<Rightarrow> world \<Rightarrow> (exn + bool) \<times> world" where
  "configure_server_names_try E c hname prefix w =
     (case connect E c w of
        (Inl e, w1) \<Rightarrow> (Inl e, w1)
      | (Inr h, w1) \<Rightarrow>
          (case configure_instances E h c hname prefix 1 (ports c) w1 of
             (Inl e, w2) \<Rightarrow> (Inl e, w2)
           | (Inr u, w2) \<Rightarrow>
               (case request E h CloseSsh w2 of
                  (Inl e, w3) \<Rightarrow> (Inl e, w3)
                | (Inr ok, w3) \<Rightarrow> (Inr True, w3))))"

definition configure_server_names ::
  "env \<Rightarrow> string \<Rightarrow> cluster \<Rightarrow> bool \<Rightarrow> world \<Rightarrow> bool \<times> world" where
  "configure_server_names E cluster_name c dry_run w =
     (let hname = (case hostname c of None \<Rightarrow> cluster_name | Some n \<Rightarrow> n);
          prefix = (case server_name_prefix c of None \<Rightarrow> ''KTP '' @ title hname | Some p \<Rightarrow> p)
      in if dry_run then (True, w)
         else (case configure_server_names_try E c hname prefix w of
                 (Inl e, w1) \<Rightarrow> (False, w1)
               | (Inr ok, w1) \<Rightarrow> (ok, w1)))"

subsection \<open>\<^verbatim>\<open>deploy_configs\<close>\<close>

text \<open>
  One template: names that do not end in \<^verbatim>\<open>.j2\<close> are skipped; the others are rendered
  and written under the name without the suffix (\<^verbatim>\<open>template_name[:-3]\<close>).
\<close>

fun deploy_templates ::
  "env \<Rightarrow> string \<Rightarrow> cluster \<Rightarrow> (string \<times> string) list \<Rightarrow> string \<Rightarrow> string \<Rightarrow> string list
     \<Rightarrow> world \<Rightarrow> (exn + unit) \<times> world" where
  "deploy_templates E h c profile_config server_dir config_dir [] w = (Inr (), w)"
| "deploy_templates E h c profile_config server_dir config_dir (template_name # rest) w =
     (if \<not> endswith template_name ''.j2''
      then deploy_templates E h c profile_config server_dir config_dir rest w
      else (case render E template_name profile_config c server_dir of
              None \<Rightarrow> (Inl TemplateError, w)
            | Some rendered \<Rightarrow>
                (case request_after E h
                        (SftpWrite (config_dir @ ''/'' @ take (length template_name - 3) template_name)
                           rendered) w of
                   (Inl e, w1) \<Rightarrow> (Inl e, w1)
                 | (Inr ok, w1) \<Rightarrow>
                     deploy_templates E h c profile_config server_dir config_dir rest w1)))"

fun deploy_config_dirs ::
  "env \<Rightarrow> string \<Rightarrow> cluster \<Rightarrow> (string \<times> string) list \<Rightarrow> string list \<Rightarrow> string list
     \<Rightarrow> world \<Rightarrow> (exn + unit) \<times> world" where
  "deploy_config_dirs E h c profile_config templates [] w = (Inr (), w)"
| "deploy_config_dirs E h c profile_config templates (server_dir # rest) w =
     (let config_dir = home_dir c @ ''/'' @ server_dir @ ''/serverfiles/dod/addons/ktpamx/configs''
      in case mkdir_p E h config_dir w of
           (Inl e, w1) \<Rightarrow> (Inl e, w1)
         | (Inr u, w1) \<Rightarrow>
             (case deploy_templates E h c profile_config server_dir config_dir templates w1 of
                (Inl e, w2) \<Rightarrow> (Inl e, w2)
              | (Inr u', w2) \<Rightarrow> deploy_config_dirs E h c profile_config templates rest w2))"

definition deploy_configs_try ::
  "env \<Rightarrow> cluster \<Rightarrow> (string \<times> string) list \<Rightarrow> string list \<Rightarrow> world
     \<Rightarrow> (exn + bool) \<times> world" where
  "deploy_configs_try E c profile_config templates w =
     (case connect E c w of
        (Inl e, w1) \<Rightarrow> (Inl e, w1)
      | (Inr h, w1) \<Rightarrow>
          (case request E h OpenSftp w1 of
             (Inl e, w2) \<Rightarrow> (Inl e, w2)
           | (Inr ok, w2) \<Rightarrow>
               (case deploy_config_dirs E h c profile_config templates (get_server_dirs c) w2 of
                  (Inl e, w3) \<Rightarrow> (Inl e, w3)
                | (Inr u, w3) \<Rightarrow>
                    (case request E h CloseSftp w3 of
                       (Inl e, w4) \<Rightarrow> (Inl e, w4)
                     | (Inr ok', w4) \<Rightarrow>
                         (case request E h CloseSsh w4 of
                            (Inl e, w5) \<Rightarrow> (Inl e, w5)
                          | (Inr ok'', w5) \<Rightarrow> (Inr True, w5))))))"

definition deploy_configs ::
  "env \<Rightarrow> deployer \<Rightarrow> string \<Rightarrow> cluster \<Rightarrow> string \<Rightarrow> bool \<Rightarrow> world \<Rightarrow> bool \<times> world" where
  "deploy_configs E D cluster_name c profile dry_run w =
     (case template_env D of
        None \<Rightarrow> (True, w)
      | Some templates \<Rightarrow>
          (let profile_config = (case profiles (config D) profile of None \<Rightarrow> [] | Some p \<Rightarrow> p)
           in if dry_run then (True, w)
              else (case deploy_configs_try E c profile_config templates w of
                      (Inl e, w1) \<Rightarrow> (False, w1)
                    | (Inr ok, w1) \<Rightarrow> (ok, w1))))"

subsection \<open>\<^verbatim>\<open>send_discord_notification\<close>\<close>

text \<open>
  The relay is contacted once, with \<^verbatim>\<open>urllib.request.urlopen\<close>; both handlers return
  \<^verbatim>\<open>False\<close>.  \<open>errors\<close> is \<open>None\<close> for Python's \<^verbatim>\<open>None\<close>.
\<close>

definition backticks :: string where
  "backticks = replicate 3 (CHR 0x60)"

definition error_text :: "string list \<Rightarrow> string" where
  "error_text errors =
     join [newline] (take 5 errors) @
     (if length errors > 5
      then [newline] @ ''... and '' @ str_nat (length errors - 5) @ '' more'' else [])"

definition embed_fields_of :: "string list \<Rightarrow> string list \<Rightarrow> string list option
    \<Rightarrow> (string \<times> string \<times> bool) list" where
  "embed_fields_of cluster_names components errors =
     [(''Clusters'', join '', '' cluster_names, True),
      (''Components'', join '', '' components, True)] @
     (case errors of
        None \<Rightarrow> []
      | Some es \<Rightarrow>
          if es = [] then []
          else [(''Errors'', backticks @ error_text es @ backticks, False)])"

definition send_discord_notification ::
  "env \<Rightarrow> deployer \<Rightarrow> bool \<Rightarrow> string list \<Rightarrow> string list \<Rightarrow> string list option \<Rightarrow> world
     \<Rightarrow> bool \<times> world" where
  "send_discord_notification E D success cluster_names components errors w =
     (case (discord_relay_url (config D), discord_relay_secret (config D),
            discord_channel_id (config D)) of
        (Some relay_url, Some relay_secret, Some chan) \<Rightarrow>
          if relay_url = [] \<or> relay_secret = [] \<or> chan = [] then (False, w)
          else
            (let p = \<lparr>channel_id = chan,
                      secret = relay_secret,
                      embed_title =
                        (if success then ''Deployment Successful'' else ''Deployment Failed''),
                      embed_description =
                        ''Version '' @ [CHR 0x60] @ version D @ [CHR 0x60] @
                        (if success then '' deployed successfully''
                         else '' deployment had errors''),
                      embed_color = (if success then 0x00FF00 else 0xFF0000),
                      embed_fields = embed_fields_of cluster_names components errors,
                      embed_timestamp = now E (clock_reads w)\<rparr>;
                 ev = HttpPost relay_url p;
                 w1 = w\<lparr>clock_reads := Suc (clock_reads w), trace := trace w @ [ev]\<rparr>
             in case fault E ev of
                  Some f \<Rightarrow> (False, w1)
                | None \<Rightarrow> (http_status E p = 200, w1))
      | _ \<Rightarrow> (False, w))"

subsection \<open>\<^verbatim>\<open>deploy\<close>\<close>

text \<open>
  The accumulators \<^verbatim>\<open>success\<close> and \<^verbatim>\<open>errors\<close> are threaded through the iterations with
  the world.  \<open>deploy_cluster\<close> is one round of \<^verbatim>\<open>for cluster_name in clusters\<close>.
\<close>

fun deploy_components ::
  "env \<Rightarrow> deployer \<Rightarrow> string \<Rightarrow> cluster \<Rightarrow> string list \<Rightarrow> bool \<Rightarrow> bool \<Rightarrow> string list \<Rightarrow> world
     \<Rightarrow> bool \<times> string list \<times> world" where
  "deploy_components E D cluster_name c [] dry_run success errors w = (success, errors, w)"
| "deploy_components E D cluster_name c (component # rest) dry_run success errors w =
     (case deploy_component E D cluster_name c component dry_run w of
        (ok, w1) \<Rightarrow>
          if \<not> ok
          then deploy_components E D cluster_name c rest dry_run False
                 (errors @ [cluster_name @ '': Failed to deploy '' @ component]) w1
          else deploy_components E D cluster_name c rest dry_run success errors w1)"

definition deploy_cluster ::
  "env \<Rightarrow> deployer \<Rightarrow> string \<Rightarrow> string list \<Rightarrow> string \<Rightarrow> bool \<Rightarrow> bool \<Rightarrow> bool
     \<Rightarrow> bool \<Rightarrow> string list \<Rightarrow> world \<Rightarrow> bool \<times> string list \<times> world" where
  "deploy_cluster E D cluster_name components profile dry_run with_configs configure_names
       success errors w =
     (case clusters (config D) cluster_name of
        None \<Rightarrow> (False, errors @ [''Unknown cluster: '' @ cluster_name], w)
      | Some c \<Rightarrow>
          (case (if configure_names
                 then (case configure_server_names E cluster_name c dry_run w of
                         (ok, w1) \<Rightarrow>
                           if \<not> ok
                           then (False,
                                 errors @ [cluster_name @ '': Failed to configure server names''],
                                 w1)
                           else (success, errors, w1))
                 else (success, errors, w)) of
             (success1, errors1, w1) \<Rightarrow>
               (case deploy_components E D cluster_name c components dry_run success1 errors1 w1 of
                  (success2, errors2, w2) \<Rightarrow>
                    if with_configs
                    then (case deploy_configs E D cluster_name c profile dry_run w2 of
                            (ok, w3) \<Rightarrow>
                              if \<not> ok
                              then (False,
                                    errors2 @ [cluster_name @ '': Failed to deploy configs''], w3)
                              else (success2, errors2, w3))
                    else (success2, errors2, w2))))"

fun deploy_clusters ::
  "env \<Rightarrow> deployer \<Rightarrow> string list \<Rightarrow> string list \<Rightarrow> string \<Rightarrow> bool \<Rightarrow> bool \<Rightarrow> bool
     \<Rightarrow> bool \<Rightarrow> string list \<Rightarrow> world \<Rightarrow> bool \<times> string list \<times> world" where
  "deploy_clusters E D [] components profile dry_run with_configs configure_names
       success errors w = (success, errors, w)"
| "deploy_clusters E D (cluster_name # rest) components profile dry_run with_configs
       configure_names success errors w =
     (case deploy_cluster E D cluster_name components profile dry_run with_configs
             configure_names success errors w of
        (success1, errors1, w1) \<Rightarrow>
          deploy_clusters E D rest components profile dry_run with_configs configure_names
            success1 errors1 w1)"

text \<open>
  \<open>deploy\<close> returns the flag; the error list is local to it and reaches the outside
  only through the notification.
\<close>

definition deploy ::
  "env \<Rightarrow> deployer \<Rightarrow> string list \<Rightarrow> string list \<Rightarrow> string \<Rightarrow> bool \<Rightarrow> bool \<Rightarrow> bool \<Rightarrow> bool
     \<Rightarrow> world \<Rightarrow> bool \<times> world" where
  "deploy E D cluster_names components profile dry_run with_configs configure_names
       notify_discord w =
     (case deploy_clusters E D cluster_names components profile dry_run with_configs
             configure_names True [] w of
        (success, errors, w1) \<Rightarrow>
          if notify_discord \<and> \<not> dry_run
          then (case send_discord_notification E D success cluster_names components
                       (if \<not> success then Some errors else None) w1 of
                  (sent, w2) \<Rightarrow> (success, w2))
          else (success, w1))"

section \<open>Observations\<close>

text \<open>The requests to the notification relay in a trace, and the connections opened.\<close>

definition http_posts :: "event list \<Rightarrow> event list" where
  "http_posts evs = filter (\<lambda>ev. case ev of HttpPost u p \<Rightarrow> True | _ \<Rightarrow> False) evs"

definition connections :: "event list \<Rightarrow> event list" where
  "connections evs = filter (\<lambda>ev. case ev of Connect h u p \<Rightarrow> True | _ \<Rightarrow> False) evs"

definition is_exec :: "event \<Rightarrow> bool" where
  "is_exec ev = (case ev of Remote h (Exec c) \<Rightarrow> True | _ \<Rightarrow> False)"

text \<open>What the inner \<^verbatim>\<open>try\<close> around \<^verbatim>\<open>sftp.put\<close> and \<^verbatim>\<open>sftp.chmod\<close> returns, read off the
  environment alone.\<close>

definition upload_result :: "env \<Rightarrow> string \<Rightarrow> path_config \<Rightarrow> string \<Rightarrow> string \<Rightarrow> exn + unit" where
  "upload_result E h pc src dst =
     (case fault E (Remote h (Put src dst)) of
        Some f \<Rightarrow> Inl (failure_exn f)
      | None \<Rightarrow>
          (case local_files E src of
             None \<Rightarrow> Inl FileNotFoundError
           | Some text \<Rightarrow>
               (case chmod pc of
                  None \<Rightarrow> Inr ()
                | Some m \<Rightarrow>
                    (case int_base8 E m of
                       None \<Rightarrow> Inl ValueError
                     | Some mode \<Rightarrow>
                         (case fault E (Remote h (Chmod dst mode)) of
                            Some f \<Rightarrow> Inl (failure_exn f)
                          | None \<Rightarrow> Inr ())))))"

text \<open>
  For the file loop: the events that are transfers (\<^verbatim>\<open>sftp.put\<close> and \<^verbatim>\<open>sftp.chmod\<close>), the
  uploads requested in a trace as pairs of local and remote path, whether a file of a
  component leaves the \<^verbatim>\<open>success\<close> flag alone (its source is missing, or its upload
  succeeds), and the uploads that an instance is due: one for every file whose source is
  on the local disk.
\<close>

definition is_transfer :: "event \<Rightarrow> bool" where
  "is_transfer ev =
     (case ev of Remote h (Put a b) \<Rightarrow> True | Remote h (Chmod p m) \<Rightarrow> True | _ \<Rightarrow> False)"

definition uploads :: "event list \<Rightarrow> (string \<times> string) list" where
  "uploads evs = concat (map (\<lambda>ev. case ev of Remote h (Put a b) \<Rightarrow> [(a, b)] | _ \<Rightarrow> []) evs)"

definition file_ok :: "env \<Rightarrow> deployer \<Rightarrow> cluster \<Rightarrow> string \<Rightarrow> string \<Rightarrow> path_config \<Rightarrow> bool" where
  "file_ok E D c h server_dir pc =
     (local_files E (local_source D pc) = None \<or>
      upload_result E h pc (local_source D pc) (dest_path c server_dir pc) = Inr ())"

definition planned_uploads ::
  "env \<Rightarrow> deployer \<Rightarrow> cluster \<Rightarrow> string \<Rightarrow> path_config list \<Rightarrow> (string \<times> string) list" where
  "planned_uploads E D c server_dir pcs =
     map (\<lambda>pc. (local_source D pc, dest_path c server_dir pc))
       (filter (\<lambda>pc. local_files E (local_source D pc) \<noteq> None) pcs)"

text \<open>
  For the directory walk: the ancestors of a path that do not exist (the path itself
  included, leaf first), the filesystem with directories added, and the paths of the
  \<^verbatim>\<open>sftp.mkdir\<close> requests in a trace.  A path is \<open>unobstructed\<close> when, from its first
  existing ancestor upward, every ancestor is a directory: nothing that is not a
  directory stands in the way, and no existing directory hangs below a missing one.
\<close>

definition missing :: "fs \<Rightarrow> string \<Rightarrow> string list" where
  "missing f p = filter (\<lambda>q. \<not> exists_path f q) (ancestors p)"

definition unobstructed :: "fs \<Rightarrow> string \<Rightarrow> bool" where
  "unobstructed f p = list_all (is_dir f) (dropWhile (\<lambda>q. \<not> exists_path f q) (ancestors p))"

definition with_dirs :: "fs \<Rightarrow> string list \<Rightarrow> fs" where
  "with_dirs f ds = f\<lparr>dirs := dirs f \<union> set ds\<rparr>"

definition mkdir_requests :: "event list \<Rightarrow> string list" where
  "mkdir_requests evs = concat (map (\<lambda>ev. case ev of Remote h (Mkdir q) \<Rightarrow> [q] | _ \<Rightarrow> []) evs)"

text \<open>The paths that the upward walk asks the server about: the missing ones and the
  first one that exists.\<close>

definition probed :: "fs \<Rightarrow> string \<Rightarrow> string list" where
  "probed f p =
     takeWhile (\<lambda>q. \<not> exists_path f q) (ancestors p) @
     take 1 (dropWhile (\<lambda>q. \<not> exists_path f q) (ancestors p))"

text \<open>A list of directories that \<^verbatim>\<open>sftp.mkdir\<close> can create one after the other: each is
  absent and has its parent when its turn comes.\<close>

fun creatable :: "fs \<Rightarrow> string list \<Rightarrow> bool" where
  "creatable f [] = True"
| "creatable f (d # ds) = (\<not> exists_path f d \<and> parent_ok f d \<and> creatable (with_dirs f [d]) ds)"

section \<open>Example inputs\<close>

text \<open>
  A small fleet used to instantiate the properties below: one cluster \<^verbatim>\<open>denver\<close> with two
  instances, one component \<^verbatim>\<open>engine\<close> with one file, an environment in which no call
  fails, and a host on which the first instance is installed.  The host's shell reads the
  command lines of the example as plain words, and the host is \<open>prompt\<close>: every pending
  command has run, in the order in which it was started, by the time the files are next
  looked at.
\<close>

definition denver :: cluster where
  "denver = \<lparr>host = Some ''10.0.0.1'', user = ''dod'', password = None,
     ports = [27015, 27016], hostname = None, server_name_prefix = None\<rparr>"

definition engine_so :: path_config where
  "engine_so = \<lparr>source = ''engine.so'', dest = ''serverfiles/engine.so'', chmod = None\<rparr>"

definition fleet_config :: config where
  "fleet_config = \<lparr>clusters = [''denver'' \<mapsto> denver],
     paths = [''engine'' \<mapsto> [engine_so]],
     profiles = Map.empty,
     data_server_ip = None,
     discord_relay_url = Some ''https://relay.example/post'',
     discord_relay_secret = Some ''s3cret'',
     discord_channel_id = Some ''42''\<rparr>"

definition fleet :: deployer where
  "fleet = \<lparr>config = fleet_config, artifacts_dir = ''/art'', version = ''v1'',
     template_env = None\<rparr>"

definition example_commands :: "command list" where
  "example_commands =
     [TestF ''/home/dod/dod-27015/serverfiles/engine.so'',
      TestF ''/home/dod/dod-27015/serverfiles/fresh.so'',
      MkdirP ''/home/dod/backups/v1'',
      Cp ''/home/dod/dod-27015/serverfiles/engine.so''
         ''/home/dod/backups/v1/engine.so.20260127_090500.bak'']"

definition prompt :: "event \<Rightarrow> (string \<times> string) list \<Rightarrow> nat list" where
  "prompt ev ps = [0..<length ps]"

definition calm :: env where
  "calm = \<lparr>fault = (\<lambda>ev. None),
     local_files = [''/art/engine.so'' \<mapsto> ''NEW''],
     now = (\<lambda>n. \<lparr>year = 2026, month = 1, day = 27, hour = 9, minute = 5, second = n\<rparr>),
     int_base8 = (\<lambda>s. if s = ''755'' then Some 493 else None),
     render = (\<lambda>t p c s. Some ''rendered''),
     http_status = (\<lambda>p. 200),
     shell = plain_shell example_commands,
     ready = prompt\<rparr>"

definition installed :: fs where
  "installed = \<lparr>dirs = {''/home'', ''/home/dod'', ''/home/dod/dod-27015'',
       ''/home/dod/dod-27015/serverfiles''},
     files = [''/home/dod/dod-27015/serverfiles/engine.so'' \<mapsto> ''OLD'']\<rparr>"

definition start :: world where
  "start = \<lparr>remote = (\<lambda>h. installed), trace = [], clock_reads = 0, pending = []\<rparr>"

text \<open>An environment in which two variables are set, to the empty string.\<close>

definition empty_overrides :: "string \<rightharpoonup> string" where
  "empty_overrides = [''KTP_DENVER_HOST'' \<mapsto> [], ''KTP_DISCORD_RELAY_URL'' \<mapsto> []]"

definition overrides :: "string \<rightharpoonup> string" where
  "overrides = [''KTP_DENVER_HOST'' \<mapsto> ''10.9.9.9'', ''KTP_DENVER_USER'' \<mapsto> ''ops'',
     ''KTP_DENVER_PASSWORD'' \<mapsto> ''pw'', ''KTP_DATA_SERVER_IP'' \<mapsto> ''10.7.7.7'',
     ''KTP_DISCORD_RELAY_URL'' \<mapsto> ''https://other.example'',
     ''KTP_DISCORD_RELAY_SECRET'' \<mapsto> ''t0ken'', ''KTP_DISCORD_CHANNEL_ID'' \<mapsto> ''7'']"

text \<open>Variations: a local disk without the artifact, a server that refuses every upload,
  a server that refuses commands, and a host that has run none of the pending commands
  whenever the files are looked at.\<close>

definition bare :: env where
  "bare = calm\<lparr>local_files := Map.empty\<rparr>"

definition refusing_uploads :: env where
  "refusing_uploads =
     calm\<lparr>fault := (\<lambda>ev. case ev of Remote h (Put a b) \<Rightarrow> Some Refused | _ \<Rightarrow> None)\<rparr>"

definition refusing_commands :: env where
  "refusing_commands =
     calm\<lparr>fault := (\<lambda>ev. case ev of Remote h (Exec c) \<Rightarrow> Some Dropped | _ \<Rightarrow> None)\<rparr>"


text \<open>A cluster whose \<^verbatim>\<open>host\<close> is the empty string, in a registry of its own, and an
  environment in which connecting to the empty host name fails.\<close>

definition ghost :: cluster where
  "ghost = \<lparr>host = Some [], user = ''dod'', password = None, ports = [27015],
     hostname = None, server_name_prefix = None\<rparr>"

definition ghost_fleet :: deployer where
  "ghost_fleet = fleet\<lparr>config := fleet_config\<lparr>clusters := [''ghost'' \<mapsto> ghost]\<rparr>\<rparr>"

definition unreachable :: env where
  "unreachable =
     calm\<lparr>fault := (\<lambda>ev. case ev of Connect h u p \<Rightarrow> Some Dropped | _ \<Rightarrow> None)\<rparr>"


section \<open>The outcomes of a run\<close>

text \<open>
  The specification speaks of the outcomes of a run: one for every cluster that is not in
  the registry, and for every other cluster one for the name configuration (when
  requested), one per component and one for the config deployment (when requested).
  \<open>run_outcomes\<close> lists them in order of occurrence, each with the message that is
  recorded when it fails; the operations are the deployer's own and the world is threaded
  through them as \<^verbatim>\<open>deploy\<close> does.
\<close>

fun component_outcomes ::
  "env \<Rightarrow> deployer \<Rightarrow> string \<Rightarrow> cluster \<Rightarrow> string list \<Rightarrow> bool \<Rightarrow> world
     \<Rightarrow> (bool \<times> string) list \<times> world" where
  "component_outcomes E D cluster_name c [] dry_run w = ([], w)"
| "component_outcomes E D cluster_name c (component # rest) dry_run w =
     (case deploy_component E D cluster_name c component dry_run w of
        (ok, w1) \<Rightarrow>
          (case component_outcomes E D cluster_name c rest dry_run w1 of
             (os, w2) \<Rightarrow> ((ok, cluster_name @ '': Failed to deploy '' @ component) # os, w2)))"

definition cluster_outcomes ::
  "env \<Rightarrow> deployer \<Rightarrow> string \<Rightarrow> string list \<Rightarrow> string \<Rightarrow> bool \<Rightarrow> bool \<Rightarrow> bool \<Rightarrow> world
     \<Rightarrow> (bool \<times> string) list \<times> world" where
  "cluster_outcomes E D cluster_name components profile dry_run with_configs configure_names w =
     (case clusters (config D) cluster_name of
        None \<Rightarrow> ([(False, ''Unknown cluster: '' @ cluster_name)], w)
      | Some c \<Rightarrow>
          (case (if configure_names
                 then (case configure_server_names E cluster_name c dry_run w of
                         (ok, w1) \<Rightarrow>
                           ([(ok, cluster_name @ '': Failed to configure server names'')], w1))
                 else ([], w)) of
             (names, w1) \<Rightarrow>
               (case component_outcomes E D cluster_name c components dry_run w1 of
                  (comps, w2) \<Rightarrow>
                    (case (if with_configs
                           then (case deploy_configs E D cluster_name c profile dry_run w2 of
                                   (ok, w3) \<Rightarrow>
                                     ([(ok, cluster_name @ '': Failed to deploy configs'')], w3))
                           else ([], w2)) of
                       (configs, w3) \<Rightarrow> (names @ comps @ configs, w3)))))"

fun run_outcomes ::
  "env \<Rightarrow> deployer \<Rightarrow> string list \<Rightarrow> string list \<Rightarrow> string \<Rightarrow> bool \<Rightarrow> bool \<Rightarrow> bool \<Rightarrow> world
     \<Rightarrow> (bool \<times> string) list \<times> world" where
  "run_outcomes E D [] components profile dry_run with_configs configure_names w = ([], w)"
| "run_outcomes E D (cluster_name # rest) components profile dry_run with_configs
       configure_names w =
     (case cluster_outcomes E D cluster_name components profile dry_run with_configs
             configure_names w of
        (os, w1) \<Rightarrow>
          (case run_outcomes E D rest components profile dry_run with_configs
                  configure_names w1 of
             (os', w2) \<Rightarrow> (os @ os', w2)))"

text \<open>The conjunction of the outcomes, and the messages of the failed ones.\<close>

definition all_ok :: "(bool \<times> string) list \<Rightarrow> bool" where
  "all_ok os = list_all fst os"

definition failures :: "(bool \<times> string) list \<Rightarrow> string list" where
  "failures os = map snd (filter (\<lambda>out. \<not> fst out) os)"

section \<open>Dry run\<close>

text \<open>
  With \<^verbatim>\<open>dry_run\<close> set, each of the three operations returns from its dry-run branch,
  which comes before the \<^verbatim>\<open>try\<close> that calls \<^verbatim>\<open>_connect\<close>.
\<close>

lemma deploy_component_dry_run:
  "deploy_component E D cluster_name c component True w
     = (truthy (host c) \<and> component_paths_of D component \<noteq> [], w)"
  by (simp add: deploy_component_def)

lemma configure_server_names_dry_run:
  "configure_server_names E cluster_name c True w = (True, w)"
  by (simp add: configure_server_names_def Let_def)

lemma deploy_configs_dry_run:
  "deploy_configs E D cluster_name c profile True w = (True, w)"
  by (simp add: deploy_configs_def Let_def split: option.splits)

lemma deploy_components_dry_run:
  "deploy_components E D cluster_name c components True success errors w = (s', es', w')
     \<Longrightarrow> w' = w"
  by (induction components arbitrary: success errors)
     (auto simp: deploy_component_dry_run split: if_splits)

lemma deploy_cluster_dry_run:
  "deploy_cluster E D cluster_name components profile True with_configs
       configure_names success errors w = (s', es', w') \<Longrightarrow> w' = w"
  by (auto simp: deploy_cluster_def configure_server_names_dry_run deploy_configs_dry_run
      split: option.splits prod.splits if_splits dest: deploy_components_dry_run)

lemma deploy_clusters_dry_run:
  "deploy_clusters E D cluster_names components profile True with_configs
       configure_names success errors w = (s', es', w') \<Longrightarrow> w' = w"
proof (induction cluster_names arbitrary: success errors)
  case Nil
  then show ?case by simp
next
  case (Cons cluster_name rest)
  obtain s1 e1 w1 where step:
    "deploy_cluster E D cluster_name components profile True with_configs configure_names
       success errors w = (s1, e1, w1)"
    by (cases "deploy_cluster E D cluster_name components profile True with_configs
       configure_names success errors w") auto
  from step have "w1 = w" by (rule deploy_cluster_dry_run)
  with step Cons.prems Cons.IH [of s1 e1] show ?case by simp
qed

lemma deploy_dry_run:
  "snd (deploy E D cluster_names components profile True with_configs configure_names
       notify_discord w) = w"
  by (auto simp: deploy_def split: prod.splits dest: deploy_clusters_dry_run)

text \<open>
  C1.  In a dry run no connection is opened and no remote state changes:
  \<^verbatim>\<open>deploy_component\<close>, \<^verbatim>\<open>configure_server_names\<close> and \<^verbatim>\<open>deploy_configs\<close> return the
  world they were given, for every cluster, component and profile, and so does the whole
  of \<^verbatim>\<open>deploy\<close>.  The world holds the trace of events (so no \<open>Connect\<close> is added to it) and
  the filesystem of every host.
\<close>

theorem dry_run_opens_no_connection:
  "snd (deploy_component E D cluster_name c component True w) = w \<and>
   snd (configure_server_names E cluster_name c True w) = w \<and>
   snd (deploy_configs E D cluster_name c profile True w) = w \<and>
   snd (deploy E D cluster_names components profile True with_configs configure_names
          notify_discord w) = w"
  by (simp add: deploy_component_dry_run configure_server_names_dry_run deploy_configs_dry_run
      deploy_dry_run)

text \<open>
  C10.  In a dry run the notification relay is not contacted even when a notification was
  asked for: with \<^verbatim>\<open>dry_run\<close> and \<^verbatim>\<open>notify_discord\<close> both set, \<^verbatim>\<open>deploy\<close> adds no
  HTTP request to the trace.
\<close>

theorem dry_run_sends_no_notification:
  "http_posts (trace (snd (deploy E D cluster_names components profile True with_configs
       configure_names True w))) = http_posts (trace w)"
  by (simp add: deploy_dry_run)

section \<open>Requests and the backup\<close>

text \<open>A request either fails in transit or is served, and adds its event to the trace;
  the backup catches whatever its body raises.\<close>

lemma request_fault:
  "fault E (Remote h r) = Some f \<Longrightarrow>
   request E h r w = (Inl (failure_exn f), w\<lparr>trace := trace w @ [Remote h r]\<rparr>)"
  by (simp add: request_def Let_def)

lemma request_served:
  "fault E (Remote h r) = None \<Longrightarrow>
   request E h r w =
     (fst (serve E r (remote w h)),
      w\<lparr>trace := trace w @ [Remote h r], remote := (remote w)(h := snd (serve E r (remote w h)))\<rparr>)"
  by (simp add: request_def Let_def split: prod.splits)

lemma backup_never_raises: "fst (backup_file_via_ssh E h remote_path bdir w) = Inr ()"
  by (simp add: backup_file_via_ssh_def split: prod.splits sum.splits)

lemma stat_served:
  assumes "fault E (Remote h (Stat p)) = None"
  shows "request E h (Stat p) w =
     (if exists_path (remote w h) p then Inr [] else Inl FileNotFoundError,
      w\<lparr>trace := trace w @ [Remote h (Stat p)]\<rparr>)"
  using assms by (simp add: request_served serve_def)

lemma request_trace:
  "request E h r w = (x, w') \<Longrightarrow> trace w' = trace w @ [Remote h r]"
  by (auto simp: request_def Let_def split: option.splits prod.splits)


text \<open>Starting a command and waiting for one; a host with nothing pending, or with
  nothing ready, is left as it is.\<close>

lemma settle_frame [simp]:
  "trace (settle E ev w) = trace w" "clock_reads (settle E ev w) = clock_reads w"
  by (simp_all add: settle_def Let_def)







lemma start_command_trace:
  "start_command E h line w = (x, w') \<Longrightarrow> trace w' = trace w @ [Remote h (Exec line)]"
  by (auto simp: start_command_def Let_def split: option.splits)

text \<open>The result of the inner \<^verbatim>\<open>try\<close> is decided by the environment alone.\<close>

lemma upload_try_result: "fst (upload_try E h pc src dst w) = upload_result E h pc src dst"
  by (simp add: upload_try_def upload_result_def request_after_def request_def serve_def Let_def
      split: option.splits)

section \<open>Environment overrides\<close>

lemma getenv_truthy_Some: "environ name = Some v \<Longrightarrow> v \<noteq> [] \<Longrightarrow> getenv_truthy environ name = Some v"
  by (simp add: getenv_truthy_def)

lemma env_prefix_denver: "env_prefix ''denver'' = ''KTP_DENVER_''"
  by (simp add: env_prefix_def upper_def upper_char_def lowers_def uppers_def)

text \<open>
  C9 (as the code has it).  A \<^verbatim>\<open>KTP_*\<close> variable that is set to a non-empty value
  replaces the document's value: for the \<^verbatim>\<open>host\<close>, \<^verbatim>\<open>user\<close> and \<^verbatim>\<open>password\<close> of every
  cluster of the document, and for the data-server address and the three relay fields.
\<close>

theorem environment_wins_when_not_empty:
  assumes "v \<noteq> []" and "clusters doc name = Some c"
  shows "(environ (env_prefix name @ ''HOST'') = Some v \<longrightarrow>
            map_option host (clusters (load_config environ doc) name) = Some (Some v)) \<and>
         (environ (env_prefix name @ ''USER'') = Some v \<longrightarrow>
            map_option user (clusters (load_config environ doc) name) = Some v) \<and>
         (environ (env_prefix name @ ''PASSWORD'') = Some v \<longrightarrow>
            map_option password (clusters (load_config environ doc) name) = Some (Some v)) \<and>
         (environ ''KTP_DATA_SERVER_IP'' = Some v \<longrightarrow>
            data_server_ip (load_config environ doc) = Some v) \<and>
         (environ ''KTP_DISCORD_RELAY_URL'' = Some v \<longrightarrow>
            discord_relay_url (load_config environ doc) = Some v) \<and>
         (environ ''KTP_DISCORD_RELAY_SECRET'' = Some v \<longrightarrow>
            discord_relay_secret (load_config environ doc) = Some v) \<and>
         (environ ''KTP_DISCORD_CHANNEL_ID'' = Some v \<longrightarrow>
            discord_channel_id (load_config environ doc) = Some v)"
  using assms by (simp add: load_config_def load_cluster_def getenv_truthy_Some)

theorem environment_wins_when_not_empty_witness:
  "map_option host (clusters (load_config overrides fleet_config) ''denver'') = Some (Some ''10.9.9.9'') \<and>
   map_option user (clusters (load_config overrides fleet_config) ''denver'') = Some ''ops'' \<and>
   map_option password (clusters (load_config overrides fleet_config) ''denver'') = Some (Some ''pw'') \<and>
   data_server_ip (load_config overrides fleet_config) = Some ''10.7.7.7'' \<and>
   discord_relay_url (load_config overrides fleet_config) = Some ''https://other.example'' \<and>
   discord_relay_secret (load_config overrides fleet_config) = Some ''t0ken'' \<and>
   discord_channel_id (load_config overrides fleet_config) = Some ''7''"
proof -
  have c: "clusters fleet_config ''denver'' = Some denver" by (simp add: fleet_config_def)
  have n: "\<And>v. v = ''10.9.9.9'' \<or> v = ''ops'' \<or> v = ''pw'' \<or> v = ''10.7.7.7'' \<or> v = ''https://other.example''
     \<or> v = ''t0ken'' \<or> v = ''7'' \<Longrightarrow> v \<noteq> []" by auto
  show ?thesis
    using environment_wins_when_not_empty [of "''10.9.9.9''" fleet_config "''denver''" denver overrides]
      environment_wins_when_not_empty [of "''ops''" fleet_config "''denver''" denver overrides]
      environment_wins_when_not_empty [of "''pw''" fleet_config "''denver''" denver overrides]
      environment_wins_when_not_empty [of "''10.7.7.7''" fleet_config "''denver''" denver overrides]
      environment_wins_when_not_empty [of "''https://other.example''" fleet_config "''denver''" denver overrides]
      environment_wins_when_not_empty [of "''t0ken''" fleet_config "''denver''" denver overrides]
      environment_wins_when_not_empty [of "''7''" fleet_config "''denver''" denver overrides]
      c
    by (simp add: env_prefix_denver overrides_def)
qed

text \<open>
  C9 as stated does not hold: a variable that is set to the empty string fails the
  truth test \<^verbatim>\<open>if env_host:\<close>, and the document's value stays.
\<close>

theorem empty_variable_does_not_override:
  "empty_overrides (env_prefix ''denver'' @ ''HOST'') = Some [] \<and>
   map_option host (clusters (load_config empty_overrides fleet_config) ''denver'')
     = Some (Some ''10.0.0.1'') \<and>
   empty_overrides ''KTP_DISCORD_RELAY_URL'' = Some [] \<and>
   discord_relay_url (load_config empty_overrides fleet_config) = Some ''https://relay.example/post''"
  by (simp add: env_prefix_denver empty_overrides_def load_config_def load_cluster_def
      getenv_truthy_def fleet_config_def denver_def)

section \<open>The aggregate result\<close>

lemma all_ok_simps [simp]:
  "all_ok [] = True" "all_ok (out # os) = (fst out \<and> all_ok os)"
  "all_ok (os @ os') = (all_ok os \<and> all_ok os')"
  by (simp_all add: all_ok_def)

lemma failures_simps [simp]:
  "failures [] = []"
  "failures (out # os) = (if fst out then failures os else snd out # failures os)"
  "failures (os @ os') = failures os @ failures os'"
  by (simp_all add: failures_def)

lemma deploy_components_outcomes:
  "component_outcomes E D cluster_name c components dry_run w = (os, w') \<Longrightarrow>
   deploy_components E D cluster_name c components dry_run success errors w
     = (success \<and> all_ok os, errors @ failures os, w')"
proof (induction components arbitrary: success errors w os w')
  case Nil
  then show ?case by simp
next
  case (Cons component rest)
  obtain ok w1 where dc: "deploy_component E D cluster_name c component dry_run w = (ok, w1)"
    by (cases "deploy_component E D cluster_name c component dry_run w") auto
  obtain os1 w2 where co: "component_outcomes E D cluster_name c rest dry_run w1 = (os1, w2)"
    by (cases "component_outcomes E D cluster_name c rest dry_run w1") auto
  from Cons.prems dc co
  have os: "os = (ok, cluster_name @ '': Failed to deploy '' @ component) # os1" and w': "w' = w2"
    by simp_all
  show ?case
    using dc os w' Cons.IH [OF co] by simp
qed

lemma deploy_cluster_outcomes:
  assumes "cluster_outcomes E D cluster_name components profile dry_run with_configs
     configure_names w = (os, w')"
  shows "deploy_cluster E D cluster_name components profile dry_run with_configs
     configure_names success errors w = (success \<and> all_ok os, errors @ failures os, w')"
proof (cases "clusters (config D) cluster_name")
  case None
  with assms show ?thesis by (auto simp: cluster_outcomes_def deploy_cluster_def)
next
  case (Some c)
  obtain ok1 w1 where n: "configure_server_names E cluster_name c dry_run w = (ok1, w1)"
    by (cases "configure_server_names E cluster_name c dry_run w") auto
  define wa where "wa = (if configure_names then w1 else w)"
  define names where
    "names = (if configure_names
              then [(ok1, cluster_name @ '': Failed to configure server names'')] else [])"
  obtain comps w2 where co: "component_outcomes E D cluster_name c components dry_run wa = (comps, w2)"
    by (cases "component_outcomes E D cluster_name c components dry_run wa") auto
  obtain ok3 w3 where dc: "deploy_configs E D cluster_name c profile dry_run w2 = (ok3, w3)"
    by (cases "deploy_configs E D cluster_name c profile dry_run w2") auto
  define configs where
    "configs = (if with_configs then [(ok3, cluster_name @ '': Failed to deploy configs'')] else [])"
  have os: "os = names @ comps @ configs" and w': "w' = (if with_configs then w3 else w2)"
    using assms Some n co dc
    by (simp_all add: cluster_outcomes_def wa_def names_def configs_def split: if_splits)
  have step: "\<And>s es. deploy_components E D cluster_name c components dry_run s es wa
      = (s \<and> all_ok comps, es @ failures comps, w2)"
    using co by (rule deploy_components_outcomes)
  show ?thesis
  proof (cases configure_names)
    case True
    then show ?thesis
      using Some n dc os w' step
      by (cases ok1; cases with_configs; cases ok3)
         (simp_all add: deploy_cluster_def wa_def names_def configs_def)
  next
    case False
    then show ?thesis
      using Some n dc os w' step
      by (cases with_configs; cases ok3)
         (simp_all add: deploy_cluster_def wa_def names_def configs_def)
  qed
qed

lemma deploy_clusters_outcomes:
  "run_outcomes E D cluster_names components profile dry_run with_configs configure_names w
     = (os, w') \<Longrightarrow>
   deploy_clusters E D cluster_names components profile dry_run with_configs configure_names
     success errors w = (success \<and> all_ok os, errors @ failures os, w')"
proof (induction cluster_names arbitrary: success errors w os w')
  case Nil
  then show ?case by simp
next
  case (Cons cluster_name rest)
  obtain os1 w1 where co:
    "cluster_outcomes E D cluster_name components profile dry_run with_configs
       configure_names w = (os1, w1)"
    by (cases "cluster_outcomes E D cluster_name components profile dry_run with_configs
       configure_names w") auto
  obtain os2 w2 where ro:
    "run_outcomes E D rest components profile dry_run with_configs configure_names w1
       = (os2, w2)"
    by (cases "run_outcomes E D rest components profile dry_run with_configs
       configure_names w1") auto
  from Cons.prems co ro have os: "os = os1 @ os2" and w': "w' = w2" by simp_all
  show ?case
    using os w' deploy_cluster_outcomes [OF co, of success errors] Cons.IH [OF ro]
    by (simp add: conj_assoc)
qed

lemma all_ok_failures: "all_ok os = (failures os = [])"
  by (induction os) auto

lemma length_failures: "length (failures os) = length (filter (\<lambda>out. \<not> fst out) os)"
  by (simp add: failures_def)

lemma deploy_is_all_ok:
  "fst (deploy E D cluster_names components profile dry_run with_configs configure_names
          notify_discord w)
     = all_ok (fst (run_outcomes E D cluster_names components profile dry_run with_configs
          configure_names w))"
proof -
  obtain os w' where ro:
    "run_outcomes E D cluster_names components profile dry_run with_configs configure_names w
       = (os, w')"
    by (cases "run_outcomes E D cluster_names components profile dry_run with_configs
       configure_names w") auto
  have "deploy_clusters E D cluster_names components profile dry_run with_configs
       configure_names True [] w = (all_ok os, failures os, w')"
    using deploy_clusters_outcomes [OF ro, of True "[]"] by simp
  with ro show ?thesis by (simp add: deploy_def split: prod.splits)
qed

text \<open>
  C2.  The result of \<^verbatim>\<open>deploy\<close> is the conjunction of all outcomes of the run (per unknown
  cluster, per name configuration, per component and per config deployment); the error
  list that the loop accumulates holds exactly the messages of the failed outcomes, one
  each and in order; and the result is success exactly when that list is empty.
\<close>

theorem deploy_result_is_conjunction_of_outcomes:
  "fst (deploy E D cluster_names components profile dry_run with_configs configure_names
          notify_discord w)
     = all_ok (fst (run_outcomes E D cluster_names components profile dry_run with_configs
          configure_names w)) \<and>
   fst (snd (deploy_clusters E D cluster_names components profile dry_run with_configs
          configure_names True [] w))
     = failures (fst (run_outcomes E D cluster_names components profile dry_run with_configs
          configure_names w)) \<and>
   fst (deploy E D cluster_names components profile dry_run with_configs configure_names
          notify_discord w)
     = (fst (snd (deploy_clusters E D cluster_names components profile dry_run with_configs
          configure_names True [] w)) = []) \<and>
   length (fst (snd (deploy_clusters E D cluster_names components profile dry_run with_configs
          configure_names True [] w)))
     = length (filter (\<lambda>out. \<not> fst out)
         (fst (run_outcomes E D cluster_names components profile dry_run with_configs
            configure_names w)))"
proof -
  obtain os w' where ro:
    "run_outcomes E D cluster_names components profile dry_run with_configs configure_names w
       = (os, w')"
    by (cases "run_outcomes E D cluster_names components profile dry_run with_configs
       configure_names w") auto
  have loop: "deploy_clusters E D cluster_names components profile dry_run with_configs
       configure_names True [] w = (all_ok os, failures os, w')"
    using deploy_clusters_outcomes [OF ro, of True "[]"] by simp
  have res: "fst (deploy E D cluster_names components profile dry_run with_configs
       configure_names notify_discord w) = all_ok os"
    using loop by (simp add: deploy_def split: prod.splits)
  show ?thesis using ro loop res by (simp add: all_ok_failures length_failures)
qed

theorem deploy_result_is_conjunction_of_outcomes_witness:
  "fst (run_outcomes calm fleet [''denver'', ''nowhere''] [''nonexistent''] ''online'' False False
          False start)
     = [(False, ''denver: Failed to deploy nonexistent''), (False, ''Unknown cluster: nowhere'')] \<and>
   fst (snd (deploy_clusters calm fleet [''denver'', ''nowhere''] [''nonexistent''] ''online''
          False False False True [] start))
     = [''denver: Failed to deploy nonexistent'', ''Unknown cluster: nowhere''] \<and>
   fst (deploy calm fleet [''denver'', ''nowhere''] [''nonexistent''] ''online'' False False False
          False start) = False"
proof -
  have outcomes: "fst (run_outcomes calm fleet [''denver'', ''nowhere''] [''nonexistent''] ''online''
      False False False start)
     = [(False, ''denver: Failed to deploy nonexistent''), (False, ''Unknown cluster: nowhere'')]"
    by (simp add: cluster_outcomes_def deploy_component_def component_paths_of_def truthy_def
        fleet_def fleet_config_def denver_def)
  from deploy_result_is_conjunction_of_outcomes [of calm fleet "[''denver'', ''nowhere'']"
      "[''nonexistent'']" "''online''" False False False False start] outcomes
  show ?thesis by simp
qed

section \<open>Components without paths\<close>

lemma deploy_components_stays_failed:
  "fst (deploy_components E D cluster_name c components dry_run False errors w) = False"
  by (induction components arbitrary: errors w) (simp_all split: prod.splits)

lemma component_outcomes_unknown:
  "component \<in> set components \<Longrightarrow> component_paths_of D component = [] \<Longrightarrow>
   \<not> all_ok (fst (component_outcomes E D cluster_name c components dry_run w))"
proof (induction components arbitrary: w)
  case Nil
  then show ?case by simp
next
  case (Cons x rest)
  show ?case
  proof (cases "x = component")
    case True
    with Cons.prems have "deploy_component E D cluster_name c x dry_run w = (False, w)"
      by (simp add: deploy_component_def)
    then show ?thesis by (simp split: prod.splits)
  next
    case False
    with Cons.prems have "component \<in> set rest" by simp
    then have "\<And>w1. \<not> all_ok (fst (component_outcomes E D cluster_name c rest dry_run w1))"
      using Cons.prems(2) by (rule Cons.IH)
    then show ?thesis by (simp split: prod.splits) (metis fst_conv)
  qed
qed

lemma cluster_outcomes_unknown:
  assumes "component \<in> set components" and "component_paths_of D component = []"
  shows "\<not> all_ok (fst (cluster_outcomes E D cluster_name components profile dry_run
     with_configs configure_names w))"
proof (cases "clusters (config D) cluster_name")
  case None
  then show ?thesis by (simp add: cluster_outcomes_def)
next
  case (Some c)
  have "\<And>w1. \<not> all_ok (fst (component_outcomes E D cluster_name c components dry_run w1))"
    using assms by (rule component_outcomes_unknown)
  then show ?thesis
    using Some by (auto simp: cluster_outcomes_def split: prod.splits if_splits) (metis fst_conv)+
qed

lemma run_outcomes_unknown:
  assumes "component \<in> set components" and "component_paths_of D component = []"
  shows "cluster_name \<in> set cluster_names \<Longrightarrow>
    \<not> all_ok (fst (run_outcomes E D cluster_names components profile dry_run with_configs
       configure_names w))"
proof (induction cluster_names arbitrary: w)
  case Nil
  then show ?case by simp
next
  case (Cons x rest)
  show ?case
  proof (cases "x = cluster_name")
    case True
    have "\<not> all_ok (fst (cluster_outcomes E D x components profile dry_run with_configs
        configure_names w))"
      using assms by (rule cluster_outcomes_unknown)
    then show ?thesis by (simp split: prod.splits) (metis fst_conv)
  next
    case False
    with Cons.prems have "cluster_name \<in> set rest" by simp
    then have "\<And>w1. \<not> all_ok (fst (run_outcomes E D rest components profile dry_run
        with_configs configure_names w1))"
      by (rule Cons.IH)
    then show ?thesis by (simp split: prod.splits) (metis fst_conv)
  qed
qed

text \<open>
  C3 (as the code has it).  A component that is unknown or has an empty list of path
  mappings makes \<^verbatim>\<open>deploy_component\<close> return \<^verbatim>\<open>False\<close> without any remote activity;
  \<^verbatim>\<open>deploy\<close> records one error for it and goes on with the remaining components, the
  aggregate of the cluster's components is failure, and so is the result of every run
  that requests the component for at least one cluster.
\<close>

theorem unknown_component_is_a_recorded_failure:
  assumes "component_paths_of D component = []"
  shows "deploy_component E D cluster_name c component dry_run w = (False, w) \<and>
         deploy_components E D cluster_name c (component # rest) dry_run success errors w
           = deploy_components E D cluster_name c rest dry_run False
               (errors @ [cluster_name @ '': Failed to deploy '' @ component]) w \<and>
         fst (deploy_components E D cluster_name c (component # rest) dry_run success errors w)
           = False \<and>
         (cluster_name \<in> set cluster_names \<and> component \<in> set components \<longrightarrow>
            fst (deploy E D cluster_names components profile dry_run with_configs
                   configure_names notify_discord w) = False)"
proof -
  have a: "deploy_component E D cluster_name c component dry_run w = (False, w)"
    using assms by (simp add: deploy_component_def)
  then have b: "deploy_components E D cluster_name c (component # rest) dry_run success errors w
           = deploy_components E D cluster_name c rest dry_run False
               (errors @ [cluster_name @ '': Failed to deploy '' @ component]) w"
    by simp
  have c: "cluster_name \<in> set cluster_names \<and> component \<in> set components \<longrightarrow>
      fst (deploy E D cluster_names components profile dry_run with_configs
             configure_names notify_discord w) = False"
    using run_outcomes_unknown [OF _ assms, of components cluster_name cluster_names E profile
        dry_run with_configs configure_names w]
    by (simp add: deploy_is_all_ok)
  from a b c show ?thesis by (simp only: deploy_components_stays_failed simp_thms)
qed

theorem unknown_component_is_a_recorded_failure_witness:
  "deploy_component calm fleet ''denver'' denver ''nonexistent'' False start = (False, start) \<and>
   deploy_components calm fleet ''denver'' denver [''nonexistent''] False True [] start
     = (False, [''denver: Failed to deploy nonexistent''], start) \<and>
   fst (deploy calm fleet [''denver''] [''engine'', ''nonexistent''] ''online'' False False False
          False start) = False"
proof -
  have h: "component_paths_of fleet ''nonexistent'' = []"
    by (simp add: component_paths_of_def fleet_def fleet_config_def)
  show ?thesis
    using unknown_component_is_a_recorded_failure [OF h, where E = calm
        and cluster_name = "''denver''" and c = denver and dry_run = False and w = start
        and rest = "[]" and success = True and errors = "[]"
        and cluster_names = "[''denver'']" and components = "[''engine'', ''nonexistent'']"
        and profile = "''online''" and with_configs = False and configure_names = False
        and notify_discord = False]
    by simp
qed

text \<open>
  C3 as stated does not hold: a run over one cluster succeeds with no component and
  fails when the unknown component is the only one requested.
\<close>

theorem unknown_component_flips_the_result:
  "fst (deploy calm fleet [''denver''] [] ''online'' False False False False start) = True \<and>
   fst (deploy calm fleet [''denver''] [''nonexistent''] ''online'' False False False False start)
     = False"
  by (simp add: deploy_def deploy_cluster_def deploy_component_def component_paths_of_def
      truthy_def fleet_def fleet_config_def denver_def)

section \<open>One file of a component\<close>

lemma deploy_file_missing_source:
  "local_files E (local_source D pc) = None \<Longrightarrow>
   deploy_file E D c h server_dir pc success w = (Inr success, w)"
  by (simp add: deploy_file_def)

lemma upload_try_put_fault:
  "fault E (Remote h (Put src dst)) = Some f \<Longrightarrow> fst (upload_try E h pc src dst w) = Inl (failure_exn f)"
  by (simp add: upload_try_def request_after_def request_fault)

lemma deploy_file_after_ensure:
  assumes src: "local_files E (local_source D pc) \<noteq> None"
    and ens: "ensure_dest_dir E h (dirname (dest_path c server_dir pc)) w = (Inr u, w1)"
    and bak: "backup_file_via_ssh E h (dest_path c server_dir pc) (backup_dir D c) w1 = (b, w2)"
  shows "deploy_file E D c h server_dir pc success w =
     (Inr (success \<and> fst (upload_try E h pc (local_source D pc) (dest_path c server_dir pc) w2) = Inr ()),
      snd (upload_try E h pc (local_source D pc) (dest_path c server_dir pc) w2))"
proof -
  have b: "b = Inr ()" using backup_never_raises [of E h "dest_path c server_dir pc" "backup_dir D c" w1] bak
    by simp
  obtain r w3 where up: "upload_try E h pc (local_source D pc) (dest_path c server_dir pc) w2 = (r, w3)"
    by (cases "upload_try E h pc (local_source D pc) (dest_path c server_dir pc) w2") auto
  show ?thesis
    using src ens bak b up
    by (cases r) (auto simp: deploy_file_def Let_def)
qed

lemma deploy_files_stay_failed:
  "deploy_files E D c h server_dir pcs False w = (Inr s, w') \<Longrightarrow> s = False"
proof (induction pcs arbitrary: w)
  case Nil
  then show ?case by simp
next
  case (Cons pc pcs)
  show ?case
  proof (cases "deploy_file E D c h server_dir pc False w")
    case (Pair r w1)
    show ?thesis
    proof (cases r)
      case (Inl e)
      with Pair Cons.prems show ?thesis by simp
    next
      case (Inr s1)
      have "s1 = False"
      proof (cases "local_files E (local_source D pc) = None")
        case True
        with Pair Inr show ?thesis by (simp add: deploy_file_missing_source)
      next
        case False
        with Pair Inr show ?thesis
          by (auto simp: deploy_file_def Let_def split: prod.splits sum.splits)
      qed
      with Pair Inr Cons.prems Cons.IH [of w1] show ?thesis by simp
    qed
  qed
qed

lemma dest_dir_example:
  "dirname (dest_path denver ''dod-27015'' engine_so) = ''/home/dod/dod-27015/serverfiles''"
  by (simp add: dest_path_def home_dir_def denver_def engine_so_def dirname_def head_of_def
      rstrip_slash_def slash_def Let_def)

lemma local_source_example: "local_source fleet engine_so = ''/art/engine.so''"
  by (simp add: local_source_def fleet_def engine_so_def startswith_def)

text \<open>
  The file loop on a session that holds: when no call other than a transfer or a shell
  command fails in transit, every round of the loop returns normally, the flag after it
  is the flag before it unless the file's upload failed, and the round requests the
  upload if and only if the source is on the local disk.
\<close>

lemma uploads_simps [simp]:
  "uploads [] = []"
  "uploads (xs @ ys) = uploads xs @ uploads ys"
  "uploads (Remote h (Put a b) # evs) = (a, b) # uploads evs"
  "uploads (Remote h (Exec line) # evs) = uploads evs"
  "uploads (Remote h (Stat p) # evs) = uploads evs"
  "uploads (Remote h (Mkdir p) # evs) = uploads evs"
  "uploads (Remote h (Chmod p m) # evs) = uploads evs"
  "uploads (Remote h OpenSftp # evs) = uploads evs"
  "uploads (Remote h CloseSftp # evs) = uploads evs"
  "uploads (Remote h CloseSsh # evs) = uploads evs"
  "uploads (Connect h u pw # evs) = uploads evs"
  by (simp_all add: uploads_def)

lemma walk_up_steady:
  assumes "\<And>p. fault E (Remote h (Stat p)) = None"
  shows "\<exists>ds' w1. walk_up E h p ds w = (Inr ds', w1) \<and> uploads (trace w1) = uploads (trace w)"
proof (induction "length p" arbitrary: p ds w rule: less_induct)
  case less
  show ?case
  proof (cases "p = []")
    case True
    then show ?thesis by (simp add: walk_up.simps)
  next
    case False
    let ?w1 = "w\<lparr>trace := trace w @ [Remote h (Stat p)]\<rparr>"
    show ?thesis
    proof (cases "exists_path (remote w h) p")
      case True
      with False show ?thesis
        by (simp add: walk_up.simps [of _ h p] stat_served [OF assms])
    next
      case absent: False
      then have "\<not> is_root p" by (simp add: exists_path_def)
      with False have "length (dirname p) < length p" by (rule dirname_shorter)
      from less [OF this, of "ds @ [p]" ?w1]
      obtain ds' w1 where "walk_up E h (dirname p) (ds @ [p]) ?w1 = (Inr ds', w1)"
        and "uploads (trace w1) = uploads (trace ?w1)" by blast
      with False absent show ?thesis
        by (simp add: walk_up.simps [of _ h p] stat_served [OF assms])
    qed
  qed
qed

lemma make_dirs_steady:
  assumes "\<And>p. fault E (Remote h (Mkdir p)) = None"
  shows "\<exists>w1. make_dirs E h ds w = (Inr (), w1) \<and> uploads (trace w1) = uploads (trace w)"
proof (induction ds arbitrary: w)
  case Nil
  show ?case by simp
next
  case (Cons d ds)
  obtain x w1 where r: "request E h (Mkdir d) w = (x, w1)"
    by (cases "request E h (Mkdir d) w") auto
  have x: "x = Inl IOError \<or> x = Inr []"
    using r by (auto simp: request_served [OF assms] serve_def split: if_splits)
  have t: "uploads (trace w1) = uploads (trace w)"
    using request_trace [OF r] by simp
  from Cons.IH [of w1] obtain w2 where "make_dirs E h ds w1 = (Inr (), w2)"
    and "uploads (trace w2) = uploads (trace w1)" by blast
  with r x t show ?case by (auto simp: is_OSError_def)
qed

lemma ensure_dest_dir_steady:
  assumes "\<And>p. fault E (Remote h (Stat p)) = None" and "\<And>p. fault E (Remote h (Mkdir p)) = None"
  shows "\<exists>w1. ensure_dest_dir E h d w = (Inr (), w1) \<and> uploads (trace w1) = uploads (trace w)"
proof (cases "exists_path (remote w h) d")
  case True
  then show ?thesis by (simp add: ensure_dest_dir_def stat_served [OF assms(1)])
next
  case False
  let ?w0 = "w\<lparr>trace := trace w @ [Remote h (Stat d)]\<rparr>"
  from walk_up_steady [OF assms(1), of d "[]" ?w0]
  obtain ds w1 where a: "walk_up E h d [] ?w0 = (Inr ds, w1)"
    and b: "uploads (trace w1) = uploads (trace ?w0)" by blast
  from make_dirs_steady [OF assms(2), of "rev ds" w1]
  obtain w2 where c: "make_dirs E h (rev ds) w1 = (Inr (), w2)"
    and d: "uploads (trace w2) = uploads (trace w1)" by blast
  from False a b c d show ?thesis
    by (simp add: ensure_dest_dir_def stat_served [OF assms(1)] mkdir_p_def)
qed

lemma backup_uploads:
  "uploads (trace (snd (backup_file_via_ssh E h dst bdir w))) = uploads (trace w)"
proof -
  have a: "\<And>r w x w'. request_after E h r w = (x, w') \<Longrightarrow> trace w' = trace w @ [Remote h r]"
    by (auto simp: request_after_def dest: request_trace)
  show ?thesis
    by (auto simp: backup_file_via_ssh_def backup_try_def Let_def
        dest!: a start_command_trace split: prod.splits sum.splits)
qed

lemma upload_uploads:
  "uploads (trace (snd (upload_try E h pc src dst w))) = uploads (trace w) @ [(src, dst)]"
proof -
  have a: "\<And>r w x w'. request_after E h r w = (x, w') \<Longrightarrow> trace w' = trace w @ [Remote h r]"
    by (auto simp: request_after_def dest: request_trace)
  show ?thesis
    by (auto simp: upload_try_def dest!: a request_trace
        split: prod.splits sum.splits option.splits)
qed

lemma steady_session:
  assumes "\<And>ev. \<not> is_exec ev \<Longrightarrow> \<not> is_transfer ev \<Longrightarrow> fault E ev = None"
  shows "fault E (Remote h (Stat p)) = None" "fault E (Remote h (Mkdir p)) = None"
    "fault E (Remote h OpenSftp) = None" "fault E (Remote h CloseSftp) = None"
    "fault E (Remote h CloseSsh) = None" "fault E (Connect h u pw) = None"
  by (rule assms; simp add: is_exec_def is_transfer_def)+

lemma deploy_file_steady:
  assumes steady: "\<And>ev. \<not> is_exec ev \<Longrightarrow> \<not> is_transfer ev \<Longrightarrow> fault E ev = None"
  shows "\<exists>w'. deploy_file E D c h server_dir pc success w =
            (Inr (success \<and> file_ok E D c h server_dir pc), w') \<and>
          uploads (trace w') = uploads (trace w) @ planned_uploads E D c server_dir [pc]"
proof (cases "local_files E (local_source D pc) = None")
  case True
  then show ?thesis
    by (simp add: deploy_file_missing_source file_ok_def planned_uploads_def)
next
  case False
  let ?dst = "dest_path c server_dir pc"
  have s1: "\<And>p. fault E (Remote h (Stat p)) = None"
    by (rule steady_session [OF steady])
  have s2: "\<And>p. fault E (Remote h (Mkdir p)) = None"
    by (rule steady_session [OF steady])
  from ensure_dest_dir_steady [OF s1 s2, where d = "dirname ?dst" and w = w]
  obtain w1 where ens: "ensure_dest_dir E h (dirname ?dst) w = (Inr (), w1)"
    and t1: "uploads (trace w1) = uploads (trace w)" by blast
  obtain b w2 where bak: "backup_file_via_ssh E h ?dst (backup_dir D c) w1 = (b, w2)"
    by (cases "backup_file_via_ssh E h ?dst (backup_dir D c) w1") auto
  have t2: "uploads (trace w2) = uploads (trace w1)"
    using backup_uploads [of E h ?dst "backup_dir D c" w1] bak by simp
  let ?w3 = "snd (upload_try E h pc (local_source D pc) ?dst w2)"
  have t3: "uploads (trace ?w3) = uploads (trace w2) @ [(local_source D pc, ?dst)]"
    by (rule upload_uploads)
  have "deploy_file E D c h server_dir pc success w =
      (Inr (success \<and> file_ok E D c h server_dir pc), ?w3)"
    using deploy_file_after_ensure [OF False ens bak, where success = success] False
    by (auto simp: upload_try_result file_ok_def)
  with t1 t2 t3 False show ?thesis
    by (simp add: planned_uploads_def)
qed

lemma planned_uploads_Cons:
  "planned_uploads E D c server_dir (pc # pcs) =
     planned_uploads E D c server_dir [pc] @ planned_uploads E D c server_dir pcs"
  by (simp add: planned_uploads_def)

lemma deploy_files_steady:
  assumes steady: "\<And>ev. \<not> is_exec ev \<Longrightarrow> \<not> is_transfer ev \<Longrightarrow> fault E ev = None"
  shows "\<exists>w'. deploy_files E D c h server_dir pcs success w =
            (Inr (success \<and> list_all (file_ok E D c h server_dir) pcs), w') \<and>
          uploads (trace w') = uploads (trace w) @ planned_uploads E D c server_dir pcs"
proof (induction pcs arbitrary: success w)
  case Nil
  show ?case by (simp add: planned_uploads_def)
next
  case (Cons pc pcs)
  from deploy_file_steady [OF steady, where D = D and c = c and h = h and server_dir = server_dir
      and pc = pc and success = success and w = w]
  obtain w1 where a: "deploy_file E D c h server_dir pc success w =
            (Inr (success \<and> file_ok E D c h server_dir pc), w1)"
    and b: "uploads (trace w1) = uploads (trace w) @ planned_uploads E D c server_dir [pc]"
    by blast
  from Cons.IH [of "success \<and> file_ok E D c h server_dir pc" w1]
  obtain w2 where c: "deploy_files E D c h server_dir pcs (success \<and> file_ok E D c h server_dir pc) w1 =
      (Inr ((success \<and> file_ok E D c h server_dir pc) \<and> list_all (file_ok E D c h server_dir) pcs), w2)"
    and d: "uploads (trace w2) = uploads (trace w1) @ planned_uploads E D c server_dir pcs"
    by blast
  from a b c d show ?case
    by (simp add: planned_uploads_Cons [of E D c server_dir pc pcs])
qed

lemma deploy_server_dirs_steady:
  assumes steady: "\<And>ev. \<not> is_exec ev \<Longrightarrow> \<not> is_transfer ev \<Longrightarrow> fault E ev = None"
  shows "\<exists>w'. deploy_server_dirs E D c h sds pcs success w =
            (Inr (success \<and> list_all (\<lambda>sd. list_all (file_ok E D c h sd) pcs) sds), w') \<and>
          uploads (trace w') =
            uploads (trace w) @ concat (map (\<lambda>sd. planned_uploads E D c sd pcs) sds)"
proof (induction sds arbitrary: success w)
  case Nil
  show ?case by simp
next
  case (Cons sd sds)
  from deploy_files_steady [OF steady, where D = D and c = c and h = h and server_dir = sd
      and pcs = pcs and success = success and w = w]
  obtain w1 where a: "deploy_files E D c h sd pcs success w =
            (Inr (success \<and> list_all (file_ok E D c h sd) pcs), w1)"
    and b: "uploads (trace w1) = uploads (trace w) @ planned_uploads E D c sd pcs"
    by blast
  from Cons.IH [of "success \<and> list_all (file_ok E D c h sd) pcs" w1]
  obtain w2 where c: "deploy_server_dirs E D c h sds pcs
        (success \<and> list_all (file_ok E D c h sd) pcs) w1 =
      (Inr ((success \<and> list_all (file_ok E D c h sd) pcs) \<and>
            list_all (\<lambda>sd. list_all (file_ok E D c h sd) pcs) sds), w2)"
    and d: "uploads (trace w2) =
        uploads (trace w1) @ concat (map (\<lambda>sd. planned_uploads E D c sd pcs) sds)"
    by blast
  from a b c d show ?case by simp
qed

lemma deploy_component_steady:
  assumes steady: "\<And>ev. \<not> is_exec ev \<Longrightarrow> \<not> is_transfer ev \<Longrightarrow> fault E ev = None"
    and host: "host c = Some h" "h \<noteq> []"
    and paths: "component_paths_of D component = pcs" "pcs \<noteq> []"
  shows "fst (deploy_component E D cluster_name c component False w) =
           list_all (\<lambda>sd. list_all (file_ok E D c h sd) pcs) (get_server_dirs c) \<and>
         uploads (trace (snd (deploy_component E D cluster_name c component False w))) =
           uploads (trace w) @ concat (map (\<lambda>sd. planned_uploads E D c sd pcs) (get_server_dirs c))"
proof -
  define w1 where
    "w1 = w\<lparr>trace := trace w @ [Connect h (user c) (if truthy (password c) then password c else None)]\<rparr>"
  define w2 where "w2 = w1\<lparr>trace := trace w1 @ [Remote h OpenSftp]\<rparr>"
  have conn: "connect E c w = (Inr h, w1)"
    by (simp add: connect_def host steady_session [OF steady] Let_def w1_def)
  have sftp: "request E h OpenSftp w1 = (Inr [], w2)"
    by (simp add: request_served steady_session [OF steady] serve_def w2_def)
  have t2: "uploads (trace w2) = uploads (trace w)"
    by (simp add: w2_def w1_def)
  from deploy_server_dirs_steady [OF steady, where D = D and c = c and h = h
      and sds = "get_server_dirs c" and pcs = pcs and success = True and w = w2]
  obtain w3 where dirs: "deploy_server_dirs E D c h (get_server_dirs c) pcs True w2 =
      (Inr (list_all (\<lambda>sd. list_all (file_ok E D c h sd) pcs) (get_server_dirs c)), w3)"
    and t3: "uploads (trace w3) =
      uploads (trace w2) @ concat (map (\<lambda>sd. planned_uploads E D c sd pcs) (get_server_dirs c))"
    by auto
  define w4 where "w4 = w3\<lparr>trace := trace w3 @ [Remote h CloseSftp]\<rparr>"
  define w5 where "w5 = w4\<lparr>trace := trace w4 @ [Remote h CloseSsh]\<rparr>"
  have close_sftp: "request E h CloseSftp w3 = (Inr [], w4)"
    by (simp add: request_served steady_session [OF steady] serve_def w4_def)
  have close_ssh: "request E h CloseSsh w4 = (Inr [], w5)"
    by (simp add: request_served steady_session [OF steady] serve_def w5_def)
  have run: "deploy_component_try E D c pcs w =
      (Inr (list_all (\<lambda>sd. list_all (file_ok E D c h sd) pcs) (get_server_dirs c)), w5)"
    by (simp add: deploy_component_try_def conn sftp dirs close_sftp close_ssh)
  have "trace w5 = trace w3 @ [Remote h CloseSftp, Remote h CloseSsh]"
    by (simp add: w5_def w4_def)
  with t2 t3 have "uploads (trace w5) =
      uploads (trace w) @ concat (map (\<lambda>sd. planned_uploads E D c sd pcs) (get_server_dirs c))"
    by simp
  then show ?thesis
    by (simp add: deploy_component_def host truthy_def paths run)
qed

lemma server_dirs_example: "get_server_dirs denver = [''dod-27015'', ''dod-27016'']"
  by (simp add: get_server_dirs_def denver_def str_int_def str_nat.simps digit_def)

text \<open>
  C4 (as the code has it).  In a real deployment a missing local source is skipped: the
  round returns with the \<^verbatim>\<open>success\<close> flag and the world as they were.  A failed upload
  sets the flag to \<^verbatim>\<open>False\<close>.  In both cases the round returns normally, so the loop goes
  on with the next file, and a flag that is \<^verbatim>\<open>False\<close> stays so.  For the component as
  a whole, on a session in which no call other than a transfer or a shell command fails:
  \<^verbatim>\<open>deploy_component\<close> returns \<^verbatim>\<open>True\<close> exactly when, on every instance, every file
  either has no local source or is uploaded without error; and the uploads requested are
  those of every instance in turn, one for each file whose source exists, whatever
  happened to the uploads before.
\<close>

theorem missing_source_is_skipped_and_failed_upload_fails:
  "(local_files E (local_source D pc) = None \<longrightarrow>
      deploy_file E D c h server_dir pc success w = (Inr success, w)) \<and>
   (local_files E (local_source D pc) \<noteq> None \<and>
    fst (ensure_dest_dir E h (dirname (dest_path c server_dir pc)) w) = Inr () \<and>
    fault E (Remote h (Put (local_source D pc) (dest_path c server_dir pc))) \<noteq> None \<longrightarrow>
      fst (deploy_file E D c h server_dir pc success w) = Inr False) \<and>
   (fst (deploy_file E D c h server_dir pc success w) = Inr success_after \<longrightarrow>
      deploy_files E D c h server_dir (pc # pcs) success w =
        deploy_files E D c h server_dir pcs success_after
          (snd (deploy_file E D c h server_dir pc success w))) \<and>
   (fst (deploy_files E D c h server_dir pcs False w) = Inr final \<longrightarrow> final = False) \<and>
   ((\<forall>ev. \<not> is_exec ev \<and> \<not> is_transfer ev \<longrightarrow> fault E ev = None) \<and>
    host c = Some h \<and> h \<noteq> [] \<and> component_paths_of D component = pcs \<and> pcs \<noteq> [] \<longrightarrow>
      fst (deploy_component E D cluster_name c component False w) =
        list_all (\<lambda>sd. list_all (file_ok E D c h sd) pcs) (get_server_dirs c) \<and>
      uploads (trace (snd (deploy_component E D cluster_name c component False w))) =
        uploads (trace w) @ concat (map (\<lambda>sd. planned_uploads E D c sd pcs) (get_server_dirs c)))"
proof (intro conjI impI)
  assume "local_files E (local_source D pc) = None"
  then show "deploy_file E D c h server_dir pc success w = (Inr success, w)"
    by (rule deploy_file_missing_source)
next
  assume a: "local_files E (local_source D pc) \<noteq> None \<and>
    fst (ensure_dest_dir E h (dirname (dest_path c server_dir pc)) w) = Inr () \<and>
    fault E (Remote h (Put (local_source D pc) (dest_path c server_dir pc))) \<noteq> None"
  obtain w1 where ens: "ensure_dest_dir E h (dirname (dest_path c server_dir pc)) w = (Inr (), w1)"
    using a by (cases "ensure_dest_dir E h (dirname (dest_path c server_dir pc)) w") auto
  obtain b w2 where bak:
    "backup_file_via_ssh E h (dest_path c server_dir pc) (backup_dir D c) w1 = (b, w2)"
    by (cases "backup_file_via_ssh E h (dest_path c server_dir pc) (backup_dir D c) w1") auto
  obtain f where f: "fault E (Remote h (Put (local_source D pc) (dest_path c server_dir pc))) = Some f"
    using a by auto
  show "fst (deploy_file E D c h server_dir pc success w) = Inr False"
    using deploy_file_after_ensure [OF _ ens bak, of success] a upload_try_put_fault [OF f, of pc w2]
    by simp
next
  assume "fst (deploy_file E D c h server_dir pc success w) = Inr success_after"
  then show "deploy_files E D c h server_dir (pc # pcs) success w =
        deploy_files E D c h server_dir pcs success_after
          (snd (deploy_file E D c h server_dir pc success w))"
    by (cases "deploy_file E D c h server_dir pc success w") simp
next
  assume "fst (deploy_files E D c h server_dir pcs False w) = Inr final"
  then show "final = False"
    using deploy_files_stay_failed [of E D c h server_dir pcs w final]
    by (cases "deploy_files E D c h server_dir pcs False w") simp
next
  assume a: "(\<forall>ev. \<not> is_exec ev \<and> \<not> is_transfer ev \<longrightarrow> fault E ev = None) \<and>
    host c = Some h \<and> h \<noteq> [] \<and> component_paths_of D component = pcs \<and> pcs \<noteq> []"
  then have steady: "\<And>ev. \<not> is_exec ev \<Longrightarrow> \<not> is_transfer ev \<Longrightarrow> fault E ev = None"
    by blast
  from a have b: "host c = Some h" "h \<noteq> []" "component_paths_of D component = pcs" "pcs \<noteq> []"
    by blast+
  from deploy_component_steady [OF steady b, where cluster_name = cluster_name and w = w]
  show "fst (deploy_component E D cluster_name c component False w) =
        list_all (\<lambda>sd. list_all (file_ok E D c h sd) pcs) (get_server_dirs c)"
    by (rule conjunct1)
next
  assume a: "(\<forall>ev. \<not> is_exec ev \<and> \<not> is_transfer ev \<longrightarrow> fault E ev = None) \<and>
    host c = Some h \<and> h \<noteq> [] \<and> component_paths_of D component = pcs \<and> pcs \<noteq> []"
  then have steady: "\<And>ev. \<not> is_exec ev \<Longrightarrow> \<not> is_transfer ev \<Longrightarrow> fault E ev = None"
    by blast
  from a have b: "host c = Some h" "h \<noteq> []" "component_paths_of D component = pcs" "pcs \<noteq> []"
    by blast+
  from deploy_component_steady [OF steady b, where cluster_name = cluster_name and w = w]
  show "uploads (trace (snd (deploy_component E D cluster_name c component False w))) =
        uploads (trace w) @ concat (map (\<lambda>sd. planned_uploads E D c sd pcs) (get_server_dirs c))"
    by (rule conjunct2)
qed

theorem missing_source_is_skipped_and_failed_upload_fails_witness:
  "deploy_file bare fleet denver ''10.0.0.1'' ''dod-27015'' engine_so True start
     = (Inr True, start) \<and>
   fst (deploy_file refusing_uploads fleet denver ''10.0.0.1'' ''dod-27015'' engine_so True start)
     = Inr False \<and>
   deploy_files bare fleet denver ''10.0.0.1'' ''dod-27015'' [engine_so] True start
     = (Inr True, start) \<and>
   fst (deploy_files bare fleet denver ''10.0.0.1'' ''dod-27015'' [engine_so] False start)
     = Inr False \<and>
   fst (deploy_component refusing_uploads fleet ''denver'' denver ''engine'' False start) = False \<and>
   uploads (trace (snd (deploy_component refusing_uploads fleet ''denver'' denver ''engine'' False start)))
     = [(''/art/engine.so'', ''/home/dod/dod-27015/serverfiles/engine.so''),
        (''/art/engine.so'', ''/home/dod/dod-27016/serverfiles/engine.so'')] \<and>
   fst (deploy_component bare fleet ''denver'' denver ''engine'' False start) = True \<and>
   uploads (trace (snd (deploy_component bare fleet ''denver'' denver ''engine'' False start))) = []"
proof -
  have missing: "local_files bare (local_source fleet engine_so) = None"
    by (simp add: bare_def)
  have present: "local_files refusing_uploads (local_source fleet engine_so) \<noteq> None"
    by (simp add: refusing_uploads_def calm_def local_source_example)
  have ensured: "fst (ensure_dest_dir refusing_uploads ''10.0.0.1''
      (dirname (dest_path denver ''dod-27015'' engine_so)) start) = Inr ()"
    by (simp add: dest_dir_example ensure_dest_dir_def request_def serve_def exists_path_def
        refusing_uploads_def calm_def start_def installed_def Let_def)
  have refused: "fault refusing_uploads (Remote ''10.0.0.1'' (Put a b)) \<noteq> None" for a b
    by (simp add: refusing_uploads_def)
  have steady: "\<forall>ev. \<not> is_exec ev \<and> \<not> is_transfer ev \<longrightarrow> fault refusing_uploads ev = None"
    by (auto simp: refusing_uploads_def is_transfer_def split: event.splits rop.splits)
  have steady': "\<forall>ev. \<not> is_exec ev \<and> \<not> is_transfer ev \<longrightarrow> fault bare ev = None"
    by (simp add: bare_def calm_def)
  have host: "host denver = Some ''10.0.0.1''" "''10.0.0.1'' \<noteq> []"
    by (simp_all add: denver_def)
  have paths: "component_paths_of fleet ''engine'' = [engine_so]" "[engine_so] \<noteq> []"
    by (simp_all add: component_paths_of_def fleet_def fleet_config_def)
  have not_ok: "\<not> file_ok refusing_uploads fleet denver ''10.0.0.1'' sd engine_so" for sd
    using present refused [of "local_source fleet engine_so" "dest_path denver sd engine_so"]
    by (auto simp: file_ok_def upload_result_def split: option.splits)
  have ok: "file_ok bare fleet denver ''10.0.0.1'' sd engine_so" for sd
    using missing by (simp add: file_ok_def)
  have planned: "planned_uploads refusing_uploads fleet denver sd [engine_so] =
      [(''/art/engine.so'', ''/home/dod/'' @ sd @ ''/serverfiles/engine.so'')]" for sd
  proof -
    have "dest engine_so = ''serverfiles/engine.so''" and "user denver = ''dod''"
      by (simp_all add: engine_so_def denver_def)
    with present show ?thesis
      by (simp add: planned_uploads_def local_source_example dest_path_def home_dir_def)
  qed
  have unplanned: "planned_uploads bare fleet denver sd [engine_so] = []" for sd
    using missing by (simp add: planned_uploads_def)
  note a = missing_source_is_skipped_and_failed_upload_fails
    [where E = bare and D = fleet and pc = engine_so and c = denver and h = "''10.0.0.1''"
       and server_dir = "''dod-27015''" and success = True and w = start and success_after = True
       and pcs = "[engine_so]" and final = False and component = "''engine''"
       and cluster_name = "''denver''"]
  note b = missing_source_is_skipped_and_failed_upload_fails
    [where E = refusing_uploads and D = fleet and pc = engine_so and c = denver
       and h = "''10.0.0.1''" and server_dir = "''dod-27015''" and success = True and w = start
       and success_after = True and pcs = "[engine_so]" and final = False
       and component = "''engine''" and cluster_name = "''denver''"]
  from a missing have 1: "deploy_file bare fleet denver ''10.0.0.1'' ''dod-27015'' engine_so True start
     = (Inr True, start)" by blast
  from b present ensured refused
  have 2: "fst (deploy_file refusing_uploads fleet denver ''10.0.0.1'' ''dod-27015'' engine_so True start)
     = Inr False" by blast
  from missing have 3: "deploy_files bare fleet denver ''10.0.0.1'' ''dod-27015'' [engine_so] True start
     = (Inr True, start)" by (simp add: deploy_file_missing_source)
  from missing have 4: "fst (deploy_files bare fleet denver ''10.0.0.1'' ''dod-27015'' [engine_so] False start)
     = Inr False" by (simp add: deploy_file_missing_source)
  from b steady host paths
  have "fst (deploy_component refusing_uploads fleet ''denver'' denver ''engine'' False start) =
        list_all (\<lambda>sd. list_all (file_ok refusing_uploads fleet denver ''10.0.0.1'' sd) [engine_so])
          (get_server_dirs denver) \<and>
      uploads (trace (snd (deploy_component refusing_uploads fleet ''denver'' denver ''engine'' False start))) =
        uploads (trace start) @
        concat (map (\<lambda>sd. planned_uploads refusing_uploads fleet denver sd [engine_so])
          (get_server_dirs denver))"
    by blast
  then have 5: "fst (deploy_component refusing_uploads fleet ''denver'' denver ''engine'' False start) = False"
    and 6: "uploads (trace (snd (deploy_component refusing_uploads fleet ''denver'' denver ''engine'' False start)))
     = [(''/art/engine.so'', ''/home/dod/dod-27015/serverfiles/engine.so''),
        (''/art/engine.so'', ''/home/dod/dod-27016/serverfiles/engine.so'')]"
    by (simp_all add: server_dirs_example not_ok planned start_def)
  from a steady' host paths
  have "fst (deploy_component bare fleet ''denver'' denver ''engine'' False start) =
        list_all (\<lambda>sd. list_all (file_ok bare fleet denver ''10.0.0.1'' sd) [engine_so])
          (get_server_dirs denver) \<and>
      uploads (trace (snd (deploy_component bare fleet ''denver'' denver ''engine'' False start))) =
        uploads (trace start) @
        concat (map (\<lambda>sd. planned_uploads bare fleet denver sd [engine_so])
          (get_server_dirs denver))"
    by blast
  then have 7: "fst (deploy_component bare fleet ''denver'' denver ''engine'' False start) = True"
    and 8: "uploads (trace (snd (deploy_component bare fleet ''denver'' denver ''engine'' False start))) = []"
    by (simp_all add: server_dirs_example ok unplanned start_def)
  from 1 2 3 4 5 6 7 8 show ?thesis by blast
qed

text \<open>
  C4 as stated does not hold for a missing source: with the artifact absent from the
  local disk, the real deployment of the component returns \<^verbatim>\<open>True\<close>.
\<close>

theorem missing_source_leaves_component_successful:
  "local_files bare (local_source fleet engine_so) = None \<and>
   fst (deploy_component bare fleet ''denver'' denver ''engine'' False start) = True"
proof -
  have missing: "local_files bare (local_source fleet engine_so) = None"
    by (simp add: bare_def)
  have files: "\<And>sd s w. deploy_files bare fleet denver ''10.0.0.1'' sd [engine_so] s w = (Inr s, w)"
    using missing by (simp add: deploy_file_def)
  have dirs: "deploy_server_dirs bare fleet denver ''10.0.0.1'' (get_server_dirs denver) [engine_so] True w
      = (Inr True, w)" for w
    by (simp add: get_server_dirs_def denver_def [THEN arg_cong, of ports] files
        del: deploy_files.simps)
  have paths: "component_paths_of fleet ''engine'' = [engine_so]"
    by (simp add: component_paths_of_def fleet_def fleet_config_def)
  have nofault: "\<And>ev. fault bare ev = None"
    by (simp add: bare_def calm_def)
  have conn: "connect bare denver start
      = (Inr ''10.0.0.1'', start\<lparr>trace := trace start @ [Connect ''10.0.0.1'' ''dod'' None]\<rparr>)"
    by (simp add: connect_def nofault denver_def truthy_def Let_def)
  have host: "truthy (host denver)"
    by (simp add: denver_def truthy_def)
  have "fst (deploy_component bare fleet ''denver'' denver ''engine'' False start) = True"
    by (simp add: deploy_component_def host paths deploy_component_try_def conn dirs
        request_served [OF nofault] serve_def)
  with missing show ?thesis by simp
qed

section \<open>The backup and the flag\<close>

text \<open>Two environments that differ only in which shell commands fail serve every SFTP
  request alike.\<close>

lemma serve_fault_update: "serve (E\<lparr>fault := g\<rparr>) r f = serve E r f"
  by (simp add: serve_def split: rop.splits)

lemma request_agree:
  assumes "\<And>ev. \<not> is_exec ev \<Longrightarrow> g ev = fault E ev" and "\<And>c. r \<noteq> Exec c"
  shows "request (E\<lparr>fault := g\<rparr>) h r w = request E h r w"
proof -
  have "\<not> is_exec (Remote h r)" using assms(2) by (cases r) (auto simp: is_exec_def)
  then have "g (Remote h r) = fault E (Remote h r)" by (rule assms(1))
  then show ?thesis by (simp add: request_def serve_fault_update Let_def split: option.splits)
qed

lemma walk_up_agree:
  assumes "\<And>ev. \<not> is_exec ev \<Longrightarrow> g ev = fault E ev"
  shows "walk_up (E\<lparr>fault := g\<rparr>) h p ds w = walk_up E h p ds w"
proof (induction "length p" arbitrary: p ds w rule: less_induct)
  case less
  have r: "request (E\<lparr>fault := g\<rparr>) h (Stat p) w = request E h (Stat p) w"
    using assms by (intro request_agree) simp_all
  show ?case
  proof (cases "p = []")
    case True
    then show ?thesis by (simp add: walk_up.simps)
  next
    case False
    obtain x w1 where q: "request E h (Stat p) w = (x, w1)"
      by (cases "request E h (Stat p) w") auto
    show ?thesis
    proof (cases "x = Inl FileNotFoundError")
      case True
      with q have "\<not> is_root p" by (intro stat_not_found_not_root [of E h p w w1]) simp
      with False have "length (dirname p) < length p" by (rule dirname_shorter)
      then have "walk_up (E\<lparr>fault := g\<rparr>) h (dirname p) (ds @ [p]) w1
          = walk_up E h (dirname p) (ds @ [p]) w1"
        by (rule less)
      with False q r True show ?thesis
        by (simp add: walk_up.simps [of _ h p])
    next
      case no: False
      with False q r show ?thesis
        by (cases x) (simp_all add: walk_up.simps [of _ h p])
    qed
  qed
qed

lemma make_dirs_agree:
  assumes "\<And>ev. \<not> is_exec ev \<Longrightarrow> g ev = fault E ev"
  shows "make_dirs (E\<lparr>fault := g\<rparr>) h ds w = make_dirs E h ds w"
proof (induction ds arbitrary: w)
  case Nil
  show ?case by simp
next
  case (Cons d ds)
  have "request (E\<lparr>fault := g\<rparr>) h (Mkdir d) w = request E h (Mkdir d) w"
    using assms by (intro request_agree) simp_all
  with Cons.IH show ?case by (simp split: prod.splits sum.splits)
qed

lemma ensure_dest_dir_agree:
  assumes "\<And>ev. \<not> is_exec ev \<Longrightarrow> g ev = fault E ev"
  shows "ensure_dest_dir (E\<lparr>fault := g\<rparr>) h d w = ensure_dest_dir E h d w"
proof -
  have "request (E\<lparr>fault := g\<rparr>) h (Stat d) w = request E h (Stat d) w"
    using assms by (intro request_agree) simp_all
  then show ?thesis
    by (simp add: ensure_dest_dir_def mkdir_p_def walk_up_agree [OF assms]
        make_dirs_agree [OF assms] split: prod.splits sum.splits)
qed

lemma upload_result_agree:
  assumes "\<And>ev. \<not> is_exec ev \<Longrightarrow> g ev = fault E ev"
  shows "upload_result (E\<lparr>fault := g\<rparr>) h pc src dst = upload_result E h pc src dst"
proof -
  have "g (Remote h (Put src dst)) = fault E (Remote h (Put src dst))"
    by (rule assms) (simp add: is_exec_def)
  moreover have "\<And>mode. g (Remote h (Chmod dst mode)) = fault E (Remote h (Chmod dst mode))"
    by (rule assms) (simp add: is_exec_def)
  ultimately show ?thesis by (simp add: upload_result_def split: option.splits)
qed

lemma deploy_file_result:
  "fst (deploy_file E D c h server_dir pc success w) =
     (if local_files E (local_source D pc) = None then Inr success
      else (case fst (ensure_dest_dir E h (dirname (dest_path c server_dir pc)) w) of
              Inl e \<Rightarrow> Inl e
            | Inr u \<Rightarrow>
                Inr (success \<and>
                     upload_result E h pc (local_source D pc) (dest_path c server_dir pc) = Inr ())))"
proof (cases "local_files E (local_source D pc) = None")
  case True
  then show ?thesis by (simp add: deploy_file_def)
next
  case False
  obtain x w1 where ens: "ensure_dest_dir E h (dirname (dest_path c server_dir pc)) w = (x, w1)"
    by (cases "ensure_dest_dir E h (dirname (dest_path c server_dir pc)) w") auto
  obtain w2 where bak:
    "backup_file_via_ssh E h (dest_path c server_dir pc) (backup_dir D c) w1 = (Inr (), w2)"
    using backup_never_raises [of E h "dest_path c server_dir pc" "backup_dir D c" w1]
    by (cases "backup_file_via_ssh E h (dest_path c server_dir pc) (backup_dir D c) w1") auto
  obtain y w3 where up:
    "upload_try E h pc (local_source D pc) (dest_path c server_dir pc) w2 = (y, w3)"
    by (cases "upload_try E h pc (local_source D pc) (dest_path c server_dir pc) w2") auto
  have y: "y = upload_result E h pc (local_source D pc) (dest_path c server_dir pc)"
    using upload_try_result [of E h pc "local_source D pc" "dest_path c server_dir pc" w2] up
    by simp
  show ?thesis
  proof (cases x)
    case (Inl e)
    with False ens show ?thesis by (auto simp: deploy_file_def Let_def)
  next
    case (Inr u)
    show ?thesis
    proof (cases y)
      case (Inl e)
      with False ens bak up Inr y [symmetric] show ?thesis
        by (auto simp: deploy_file_def Let_def)
    next
      case yr: (Inr u')
      with False ens bak up Inr y [symmetric] show ?thesis
        by (auto simp: deploy_file_def Let_def)
    qed
  qed
qed

text \<open>
  C6.  \<^verbatim>\<open>_backup_file_via_ssh\<close> never raises: whatever its body raises, it returns
  normally.  And the \<^verbatim>\<open>success\<close> flag after a round of the file loop does not depend on
  whether the backup succeeded: it is the same in any two environments that differ only
  in which shell commands fail (the backup is the only user of shell commands in
  \<^verbatim>\<open>deploy_component\<close>), and it is a function of the source check, the destination
  directory step and the upload alone.
\<close>

theorem backup_never_raises_and_never_changes_the_flag:
  assumes "\<And>ev. \<not> is_exec ev \<Longrightarrow> g ev = fault E ev"
  shows "fst (backup_file_via_ssh E h remote_path bdir w) = Inr () \<and>
         fst (backup_file_via_ssh (E\<lparr>fault := g\<rparr>) h remote_path bdir w) = Inr () \<and>
         fst (deploy_file (E\<lparr>fault := g\<rparr>) D c h server_dir pc success w)
           = fst (deploy_file E D c h server_dir pc success w) \<and>
         fst (deploy_file E D c h server_dir pc success w) =
           (if local_files E (local_source D pc) = None then Inr success
            else (case fst (ensure_dest_dir E h (dirname (dest_path c server_dir pc)) w) of
                    Inl e \<Rightarrow> Inl e
                  | Inr u \<Rightarrow>
                      Inr (success \<and>
                           upload_result E h pc (local_source D pc) (dest_path c server_dir pc)
                             = Inr ())))"
proof -
  have "fst (deploy_file (E\<lparr>fault := g\<rparr>) D c h server_dir pc success w)
           = fst (deploy_file E D c h server_dir pc success w)"
    by (simp add: deploy_file_result ensure_dest_dir_agree [OF assms]
        upload_result_agree [OF assms] split: sum.splits)
  then show ?thesis
    using deploy_file_result [of E D c h server_dir pc success w]
    by (simp only: backup_never_raises simp_thms)
qed

theorem backup_never_raises_and_never_changes_the_flag_witness:
  "fst (backup_try refusing_commands ''10.0.0.1'' (dest_path denver ''dod-27015'' engine_so)
          (backup_dir fleet denver) start) = Inl SSHException \<and>
   fst (backup_file_via_ssh refusing_commands ''10.0.0.1''
          (dest_path denver ''dod-27015'' engine_so) (backup_dir fleet denver) start) = Inr () \<and>
   fst (deploy_file refusing_commands fleet denver ''10.0.0.1'' ''dod-27015'' engine_so True start)
     = Inr True \<and>
   fst (deploy_file calm fleet denver ''10.0.0.1'' ''dod-27015'' engine_so True start) = Inr True"
proof -
  have agree: "\<And>ev. \<not> is_exec ev \<Longrightarrow> fault refusing_commands ev = fault calm ev"
    by (auto simp: is_exec_def refusing_commands_def calm_def split: event.splits rop.splits)
  have upd: "calm\<lparr>fault := fault refusing_commands\<rparr> = refusing_commands"
    by (simp add: refusing_commands_def)
  have dropped: "fault refusing_commands
      (Remote ''10.0.0.1'' (Exec (command_line (TestF (dest_path denver ''dod-27015'' engine_so)))))
        = Some Dropped"
    by (simp add: refusing_commands_def)
  have 1: "fst (backup_try refusing_commands ''10.0.0.1'' (dest_path denver ''dod-27015'' engine_so)
          (backup_dir fleet denver) start) = Inl SSHException"
    by (simp add: backup_try_def request_after_def request_fault [OF dropped] failure_exn_def)
  have ensured: "fst (ensure_dest_dir calm ''10.0.0.1''
      (dirname (dest_path denver ''dod-27015'' engine_so)) start) = Inr ()"
    by (simp add: dest_dir_example ensure_dest_dir_def request_def serve_def exists_path_def
        calm_def start_def installed_def Let_def)
  have no_chmod: "chmod engine_so = None"
    by (simp add: engine_so_def)
  have uploaded: "upload_result calm ''10.0.0.1'' engine_so (local_source fleet engine_so)
      (dest_path denver ''dod-27015'' engine_so) = Inr ()"
    by (simp add: upload_result_def local_source_example calm_def no_chmod)
  have present: "local_files calm (local_source fleet engine_so) \<noteq> None"
    by (simp add: calm_def local_source_example)
  note t = backup_never_raises_and_never_changes_the_flag [OF agree,
      where h = "''10.0.0.1''" and remote_path = "dest_path denver ''dod-27015'' engine_so"
        and bdir = "backup_dir fleet denver" and w = start and D = fleet and c = denver
        and server_dir = "''dod-27015''" and pc = engine_so and success = True, unfolded upd]
  from t ensured uploaded present 1 show ?thesis by simp
qed

section \<open>Remote directory creation\<close>

text \<open>
  On a session without transport failures the upward walk returns the ancestors up to
  the first one that exists, and asks the server about exactly those and that one.
\<close>

lemma ancestors_Nil [simp]: "ancestors [] = []"
  by (simp add: ancestors.simps)

lemma ancestors_root: "is_root p \<Longrightarrow> ancestors p = [p]"
  by (subst ancestors.simps) (simp add: is_root_def)

lemma ancestors_step: "p \<noteq> [] \<Longrightarrow> \<not> is_root p \<Longrightarrow> ancestors p = p # ancestors (dirname p)"
  by (subst ancestors.simps) simp

lemma walk_up_calm:
  assumes nofault: "\<And>r. fault E (Remote h r) = None"
  shows "walk_up E h p ds w =
     (Inr (ds @ takeWhile (\<lambda>q. \<not> exists_path (remote w h) q) (ancestors p)),
      w\<lparr>trace := trace w @ map (\<lambda>q. Remote h (Stat q)) (probed (remote w h) p)\<rparr>)"
proof (induction "length p" arbitrary: p ds w rule: less_induct)
  case less
  show ?case
  proof (cases "p = []")
    case True
    then show ?thesis by (simp add: walk_up.simps probed_def)
  next
    case False
    show ?thesis
    proof (cases "exists_path (remote w h) p")
      case True
      have "ancestors p = [p] \<or> ancestors p = p # ancestors (dirname p)"
        using False ancestors_root [of p] ancestors_step [of p] by blast
      then show ?thesis
        using False True
        by (auto simp: walk_up.simps [of E h p] stat_served [OF nofault] probed_def)
    next
      case ne: False
      then have nr: "\<not> is_root p" by (simp add: exists_path_def)
      with False have shorter: "length (dirname p) < length p" by (rule dirname_shorter)
      have anc: "ancestors p = p # ancestors (dirname p)"
        using False nr by (rule ancestors_step)
      let ?w1 = "w\<lparr>trace := trace w @ [Remote h (Stat p)]\<rparr>"
      have rec: "walk_up E h (dirname p) (ds @ [p]) ?w1 =
        (Inr ((ds @ [p]) @ takeWhile (\<lambda>q. \<not> exists_path (remote ?w1 h) q) (ancestors (dirname p))),
         ?w1\<lparr>trace := trace ?w1 @ map (\<lambda>q. Remote h (Stat q)) (probed (remote ?w1 h) (dirname p))\<rparr>)"
        using shorter by (rule less)
      show ?thesis
        using False ne anc rec
        by (simp add: walk_up.simps [of E h p] stat_served [OF nofault] probed_def)
    qed
  qed
qed


lemma with_dirs_simps [simp]:
  "with_dirs f [] = f"
  "with_dirs (with_dirs f xs) ys = with_dirs f (xs @ ys)"
  "exists_path (with_dirs f xs) q = (exists_path f q \<or> q \<in> set xs)"
  "is_dir (with_dirs f xs) q = (is_dir f q \<or> q \<in> set xs)"
  by (auto simp: with_dirs_def exists_path_def is_dir_def Un_assoc)

lemma mkdir_served:
  assumes "fault E (Remote h (Mkdir d)) = None"
    and "\<not> exists_path (remote w h) d" and "parent_ok (remote w h) d"
  shows "request E h (Mkdir d) w =
     (Inr [], w\<lparr>trace := trace w @ [Remote h (Mkdir d)],
                remote := (remote w)(h := with_dirs (remote w h) [d])\<rparr>)"
  using assms by (simp add: request_served serve_def with_dirs_def)

lemma make_dirs_creatable:
  assumes nofault: "\<And>r. fault E (Remote h r) = None"
  shows "creatable (remote w h) ds \<Longrightarrow>
     make_dirs E h ds w =
       (Inr (), w\<lparr>trace := trace w @ map (\<lambda>q. Remote h (Mkdir q)) ds,
                  remote := (remote w)(h := with_dirs (remote w h) ds)\<rparr>)"
proof (induction ds arbitrary: w)
  case Nil
  show ?case by simp
next
  case (Cons d ds)
  let ?w1 = "w\<lparr>trace := trace w @ [Remote h (Mkdir d)],
               remote := (remote w)(h := with_dirs (remote w h) [d])\<rparr>"
  from Cons.prems have a: "\<not> exists_path (remote w h) d" and b: "parent_ok (remote w h) d"
    and c: "creatable (remote ?w1 h) ds" by simp_all
  have req: "request E h (Mkdir d) w = (Inr [], ?w1)"
    using nofault a b by (rule mkdir_served)
  have step: "make_dirs E h (d # ds) w = make_dirs E h ds ?w1"
    using req by simp
  have r: "(remote ?w1)(h := with_dirs (remote ?w1 h) ds)
      = (remote w)(h := with_dirs (remote w h) (d # ds))"
    by (simp add: fun_eq_iff)
  have "?w1\<lparr>trace := trace ?w1 @ map (\<lambda>q. Remote h (Mkdir q)) ds,
             remote := (remote ?w1)(h := with_dirs (remote ?w1 h) ds)\<rparr>
      = w\<lparr>trace := trace w @ map (\<lambda>q. Remote h (Mkdir q)) (d # ds),
           remote := (remote w)(h := with_dirs (remote w h) (d # ds))\<rparr>"
    unfolding r by simp
  with step Cons.IH [OF c] show ?case by (simp only:)
qed

lemma creatable_append:
  "creatable f (xs @ ys) = (creatable f xs \<and> creatable (with_dirs f xs) ys)"
  by (induction xs arbitrary: f) (auto simp: parent_ok_def)

lemma ancestors_length: "q \<in> set (ancestors p) \<Longrightarrow> length q \<le> length p"
proof (induction "length p" arbitrary: p rule: less_induct)
  case less
  show ?case
  proof (cases "p = [] \<or> is_root p")
    case True
    with less.prems show ?thesis by (auto simp: ancestors_root)
  next
    case False
    then have anc: "ancestors p = p # ancestors (dirname p)" by (simp add: ancestors_step)
    from False have shorter: "length (dirname p) < length p" by (simp add: dirname_shorter)
    show ?thesis
    proof (cases "q = p")
      case True
      then show ?thesis by simp
    next
      case ne: False
      with less.prems anc have "q \<in> set (ancestors (dirname p))" by simp
      with shorter have "length q \<le> length (dirname p)" by (rule less.hyps)
      with shorter show ?thesis by simp
    qed
  qed
qed

lemma ancestors_hd: "p \<noteq> [] \<Longrightarrow> hd (ancestors p) = p \<and> ancestors p \<noteq> []"
  by (cases "is_root p") (simp_all add: ancestors_root ancestors_step)

lemma missing_creatable:
  "unobstructed f p \<Longrightarrow>
   creatable f (rev (takeWhile (\<lambda>q. \<not> exists_path f q) (ancestors p)))"
proof (induction "length p" arbitrary: p rule: less_induct)
  case less
  show ?case
  proof (cases "p = []")
    case True
    then show ?thesis by simp
  next
    case False
    show ?thesis
    proof (cases "exists_path f p")
      case True
      have "ancestors p = [p] \<or> ancestors p = p # ancestors (dirname p)"
        using False ancestors_root [of p] ancestors_step [of p] by blast
      with True show ?thesis by auto
    next
      case ne: False
      then have nr: "\<not> is_root p" by (simp add: exists_path_def)
      with False have shorter: "length (dirname p) < length p" by (rule dirname_shorter)
      have anc: "ancestors p = p # ancestors (dirname p)"
        using False nr by (rule ancestors_step)
      let ?up = "takeWhile (\<lambda>q. \<not> exists_path f q) (ancestors (dirname p))"
      have un: "unobstructed f (dirname p)"
        using less.prems anc ne by (simp add: unobstructed_def)
      have ih: "creatable f (rev ?up)"
        using shorter un by (rule less.hyps)
      have fresh: "p \<notin> set ?up"
      proof
        assume "p \<in> set ?up"
        then have "p \<in> set (ancestors (dirname p))" by (rule set_takeWhileD [THEN conjunct1])
        then have "length p \<le> length (dirname p)" by (rule ancestors_length)
        with shorter show False by simp
      qed
      have parent: "parent_ok (with_dirs f (rev ?up)) p"
      proof (cases "dirname p = []")
        case True
        then show ?thesis by (simp add: parent_ok_def)
      next
        case dn: False
        then obtain t where t: "ancestors (dirname p) = dirname p # t"
          using ancestors_hd [of "dirname p"] by (cases "ancestors (dirname p)") auto
        show ?thesis
        proof (cases "exists_path f (dirname p)")
          case True
          with un t have "is_dir f (dirname p)" by (simp add: unobstructed_def)
          then show ?thesis by (simp add: parent_ok_def)
        next
          case False
          with t have "dirname p \<in> set ?up" by simp
          then show ?thesis by (simp add: parent_ok_def)
        qed
      qed
      show ?thesis
        using anc ne ih fresh parent by (simp add: creatable_append)
    qed
  qed
qed

lemma filter_takeWhile:
  "list_all (\<lambda>x. \<not> P x) (dropWhile P xs) \<Longrightarrow> filter P xs = takeWhile P xs"
proof (induction xs)
  case Nil
  show ?case by simp
next
  case (Cons x xs)
  show ?case
  proof (cases "P x")
    case True
    with Cons show ?thesis by simp
  next
    case False
    with Cons.prems have "list_all (\<lambda>x. \<not> P x) xs" by simp
    then have "filter P xs = []" by (simp add: list_all_iff filter_empty_conv)
    with False show ?thesis by simp
  qed
qed

lemma is_dir_exists: "is_dir f q \<Longrightarrow> exists_path f q"
  by (auto simp: is_dir_def exists_path_def)

lemma missing_takeWhile:
  assumes "unobstructed f p"
  shows "missing f p = takeWhile (\<lambda>q. \<not> exists_path f q) (ancestors p)"
proof -
  define rest where "rest = dropWhile (\<lambda>q. \<not> exists_path f q) (ancestors p)"
  have "list_all (is_dir f) rest"
    using assms by (simp only: unobstructed_def rest_def)
  then have "list_all (\<lambda>q. \<not> \<not> exists_path f q) rest"
    by (induction rest) (auto dest: is_dir_exists)
  then show ?thesis unfolding missing_def rest_def by (rule filter_takeWhile)
qed

lemma mkdir_requests_simps [simp]:
  "mkdir_requests [] = []"
  "mkdir_requests (evs @ evs') = mkdir_requests evs @ mkdir_requests evs'"
  "mkdir_requests (map (\<lambda>q. Remote h (Stat q)) ps) = []"
  "mkdir_requests (map (\<lambda>q. Remote h (Mkdir q)) ps) = ps"
  by (induction ps) (simp_all add: mkdir_requests_def)

lemma with_dirs_rev [simp]: "with_dirs f (rev ds) = with_dirs f ds"
  by (simp add: with_dirs_def)

lemma mkdir_p_calm:
  assumes nofault: "\<And>r. fault E (Remote h r) = None" and un: "unobstructed (remote w h) p"
  shows "mkdir_p E h p w =
     (Inr (),
      w\<lparr>trace := trace w @ map (\<lambda>q. Remote h (Stat q)) (probed (remote w h) p)
                  @ map (\<lambda>q. Remote h (Mkdir q)) (rev (missing (remote w h) p)),
        remote := (remote w)(h := with_dirs (remote w h) (missing (remote w h) p))\<rparr>)"
proof -
  let ?f = "remote w h"
  let ?wa = "w\<lparr>trace := trace w @ map (\<lambda>q. Remote h (Stat q)) (probed ?f p)\<rparr>"
  have m: "takeWhile (\<lambda>q. \<not> exists_path ?f q) (ancestors p) = missing ?f p"
    using un by (simp add: missing_takeWhile)
  have walk: "walk_up E h p [] w = (Inr (missing ?f p), ?wa)"
    using walk_up_calm [OF nofault, of p "[]" w] m by simp
  have "creatable (remote ?wa h) (rev (missing ?f p))"
    using missing_creatable [OF un] m by simp
  then have "make_dirs E h (rev (missing ?f p)) ?wa =
       (Inr (), ?wa\<lparr>trace := trace ?wa @ map (\<lambda>q. Remote h (Mkdir q)) (rev (missing ?f p)),
                  remote := (remote ?wa)(h := with_dirs (remote ?wa h) (rev (missing ?f p)))\<rparr>)"
    by (rule make_dirs_creatable [OF nofault])
  with walk show ?thesis by (simp add: mkdir_p_def)
qed

lemma chain_is_dirs:
  assumes "unobstructed f p"
  shows "list_all (is_dir (with_dirs f (missing f p))) (ancestors p)"
proof -
  let ?P = "\<lambda>q. \<not> exists_path f q"
  have "is_dir (with_dirs f (missing f p)) q" if q: "q \<in> set (ancestors p)" for q
  proof (cases "exists_path f q")
    case False
    with q show ?thesis by (simp add: missing_def)
  next
    case True
    have "q \<in> set (takeWhile ?P (ancestors p)) \<or> q \<in> set (dropWhile ?P (ancestors p))"
      using q by (metis UnE set_append takeWhile_dropWhile_id)
    moreover have "q \<notin> set (takeWhile ?P (ancestors p))"
      using True set_takeWhileD [of q ?P "ancestors p"] by blast
    ultimately have "q \<in> set (dropWhile ?P (ancestors p))" by blast
    with assms have "is_dir f q" by (simp add: unobstructed_def list_all_iff)
    then show ?thesis by simp
  qed
  then show ?thesis by (simp add: list_all_iff)
qed

lemma created_unobstructed:
  assumes "unobstructed f p"
  shows "unobstructed (with_dirs f (missing f p)) p"
    and "missing (with_dirs f (missing f p)) p = []"
proof -
  let ?g = "with_dirs f (missing f p)"
  have all: "\<And>q. q \<in> set (ancestors p) \<Longrightarrow> is_dir ?g q"
    using chain_is_dirs [OF assms] by (simp add: list_all_iff)
  have "\<And>q. q \<in> set (dropWhile (\<lambda>q. \<not> exists_path ?g q) (ancestors p)) \<Longrightarrow> is_dir ?g q"
    using all set_dropWhileD by fast
  then show "unobstructed ?g p" by (simp only: unobstructed_def list_all_iff) blast
  have "\<And>q. q \<in> set (ancestors p) \<Longrightarrow> exists_path ?g q"
    using all is_dir_exists by blast
  then show "missing ?g p = []" by (simp only: missing_def filter_empty_conv) blast
qed

lemma ancestors_example:
  "ancestors ''/home/dod/dod-27016/serverfiles'' =
     [''/home/dod/dod-27016/serverfiles'', ''/home/dod/dod-27016'', ''/home/dod'', ''/home'', ''/'']"
  by (simp add: ancestors.simps dirname_def head_of_def rstrip_slash_def slash_def is_root_def
      Let_def)

lemma calm_no_fault: "fault calm ev = None"
  by (simp add: calm_def)

text \<open>
  C7.  On a session without transport failures and for an unobstructed path,
  \<^verbatim>\<open>_mkdir_p\<close> collects exactly the ancestors that do not exist, sends the \<^verbatim>\<open>mkdir\<close>
  requests for them root first, and returns normally; afterwards every ancestor of the
  path is a directory, and the filesystem is the old one with exactly the missing
  directories added.  A second run on the same path returns normally, sends no
  \<^verbatim>\<open>mkdir\<close> and leaves the filesystem as it is.  An \<^verbatim>\<open>IOError\<close> from \<^verbatim>\<open>mkdir\<close> (the
  directory exists already) is swallowed: the loop goes on with the next directory.
\<close>

theorem mkdir_p_creates_the_chain_and_is_idempotent:
  assumes nofault: "\<And>r. fault E (Remote h r) = None" and un: "unobstructed (remote w h) p"
  shows "fst (walk_up E h p [] w) = Inr (missing (remote w h) p) \<and>
         fst (mkdir_p E h p w) = Inr () \<and>
         mkdir_requests (trace (snd (mkdir_p E h p w)))
           = mkdir_requests (trace w) @ rev (missing (remote w h) p) \<and>
         remote (snd (mkdir_p E h p w))
           = (remote w)(h := with_dirs (remote w h) (missing (remote w h) p)) \<and>
         list_all (is_dir (remote (snd (mkdir_p E h p w)) h)) (ancestors p) \<and>
         fst (mkdir_p E h p (snd (mkdir_p E h p w))) = Inr () \<and>
         mkdir_requests (trace (snd (mkdir_p E h p (snd (mkdir_p E h p w)))))
           = mkdir_requests (trace (snd (mkdir_p E h p w))) \<and>
         remote (snd (mkdir_p E h p (snd (mkdir_p E h p w)))) = remote (snd (mkdir_p E h p w)) \<and>
         (fst (request E h (Mkdir d) w) = Inl IOError \<longrightarrow>
            make_dirs E h (d # ds) w = make_dirs E h ds (snd (request E h (Mkdir d) w)))"
proof -
  let ?f = "remote w h"
  let ?g = "with_dirs ?f (missing ?f p)"
  have walk: "fst (walk_up E h p [] w) = Inr (missing ?f p)"
    using walk_up_calm [OF nofault, of p "[]" w] un by (simp add: missing_takeWhile)
  obtain w1 where first: "mkdir_p E h p w = (Inr (), w1)"
    and tr1: "mkdir_requests (trace w1) = mkdir_requests (trace w) @ rev (missing ?f p)"
    and re1: "remote w1 = (remote w)(h := ?g)"
    using mkdir_p_calm [OF nofault un] by simp
  have g: "remote w1 h = ?g" using re1 by simp
  have un1: "unobstructed (remote w1 h) p" and m1: "missing (remote w1 h) p = []"
    using created_unobstructed [OF un] g by simp_all
  have dirs: "list_all (is_dir (remote w1 h)) (ancestors p)"
    using chain_is_dirs [OF un] g by simp
  obtain w2 where second: "mkdir_p E h p w1 = (Inr (), w2)"
    and tr2: "mkdir_requests (trace w2) = mkdir_requests (trace w1)"
    and re2: "remote w2 = remote w1"
    using mkdir_p_calm [OF nofault un1] m1 by simp
  have swallow: "fst (request E h (Mkdir d) w) = Inl IOError \<longrightarrow>
      make_dirs E h (d # ds) w = make_dirs E h ds (snd (request E h (Mkdir d) w))"
    by (cases "request E h (Mkdir d) w") (simp add: is_OSError_def)
  from walk first tr1 re1 dirs second tr2 re2 swallow show ?thesis by simp
qed

theorem mkdir_p_creates_the_chain_and_is_idempotent_witness:
  "fst (walk_up calm ''10.0.0.1'' ''/home/dod/dod-27016/serverfiles'' [] start)
     = Inr [''/home/dod/dod-27016/serverfiles'', ''/home/dod/dod-27016''] \<and>
   fst (mkdir_p calm ''10.0.0.1'' ''/home/dod/dod-27016/serverfiles'' start) = Inr () \<and>
   mkdir_requests (trace (snd (mkdir_p calm ''10.0.0.1'' ''/home/dod/dod-27016/serverfiles'' start)))
     = [''/home/dod/dod-27016'', ''/home/dod/dod-27016/serverfiles''] \<and>
   fst (mkdir_p calm ''10.0.0.1'' ''/home/dod/dod-27016/serverfiles''
          (snd (mkdir_p calm ''10.0.0.1'' ''/home/dod/dod-27016/serverfiles'' start))) = Inr () \<and>
   mkdir_requests (trace (snd (mkdir_p calm ''10.0.0.1'' ''/home/dod/dod-27016/serverfiles''
          (snd (mkdir_p calm ''10.0.0.1'' ''/home/dod/dod-27016/serverfiles'' start)))))
     = [''/home/dod/dod-27016'', ''/home/dod/dod-27016/serverfiles''] \<and>
   fst (make_dirs calm ''10.0.0.1'' [''/home''] start) = Inr ()"
proof -
  have f: "remote start ''10.0.0.1'' = installed" by (simp add: start_def)
  have un: "unobstructed (remote start ''10.0.0.1'') ''/home/dod/dod-27016/serverfiles''"
    by (simp add: f unobstructed_def ancestors_example exists_path_def is_dir_def installed_def
        is_root_def slash_def)
  have m: "missing (remote start ''10.0.0.1'') ''/home/dod/dod-27016/serverfiles''
      = [''/home/dod/dod-27016/serverfiles'', ''/home/dod/dod-27016'']"
    by (simp add: f missing_def ancestors_example exists_path_def installed_def is_root_def
        slash_def)
  have tr: "trace start = []" by (simp add: start_def)
  have refused: "fst (request calm ''10.0.0.1'' (Mkdir ''/home'') start) = Inl IOError"
    by (simp add: request_def calm_no_fault serve_def f exists_path_def installed_def Let_def)
  note t = mkdir_p_creates_the_chain_and_is_idempotent [of calm "''10.0.0.1''" start
      "''/home/dod/dod-27016/serverfiles''" "''/home''" "[]", OF calm_no_fault un]
  from t m tr refused show ?thesis by simp
qed

section \<open>Backup before overwrite\<close>










lemma backup_dir_example: "backup_dir fleet denver = ''/home/dod/backups/v1''"
  by (simp add: backup_dir_def home_dir_def denver_def fleet_def)

















section \<open>Clusters without an address\<close>

text \<open>
  C8.  The claim that a cluster without an address is never connected to fails on the
  code: \<^verbatim>\<open>deploy_component\<close> guards on \<^verbatim>\<open>cluster.get("host")\<close>, but
  \<^verbatim>\<open>configure_server_names\<close> and \<^verbatim>\<open>deploy_configs\<close> do not.  For a cluster whose
  \<^verbatim>\<open>host\<close> is the empty string, a real run with name configuration calls
  \<^verbatim>\<open>ssh.connect\<close> with the empty host name; the same run without name configuration
  opens no connection.
\<close>

theorem empty_host_is_connected_to:
  "host ghost = Some [] \<and>
   connections (trace (snd (deploy unreachable ghost_fleet [''ghost''] [''engine''] ''online''
       False False True False start))) = [Connect [] ''dod'' None] \<and>
   connections (trace (snd (deploy unreachable ghost_fleet [''ghost''] [''engine''] ''online''
       False False False False start))) = []"
  by (simp add: deploy_def deploy_cluster_def configure_server_names_def
      configure_server_names_try_def connect_def deploy_component_def truthy_def
      unreachable_def calm_def ghost_fleet_def ghost_def fleet_def fleet_config_def
      connections_def Let_def start_def)

end
